theory Spec2Isabelle
  imports Complex_Main
begin

section \<open>Data model (packages/types/src/werewolf.ts)\<close>

text \<open>
  Player ids are JavaScript strings. Truthiness tests on an id (\<open>if (action.targetId)\<close>,
  \<open>!leader\<close>) are false for \<open>null\<close> and for the empty string, so a nullable id is a
  \<open>string option\<close> and \<open>truthy\<close> spells the test out.
\<close>

type_synonym PlayerId = string

datatype GamePhase = Setup | Night | Day | Voting | Resolution | Ended

datatype WinCondition = Villagers | Werewolves | NoWinner

datatype WerewolfRole = Villager | Werewolf | Seer | Doctor | Hunter

datatype NightActionType = Kill | Investigate | Protect | NoAction

record WerewolfPlayer =
  p_id :: PlayerId
  p_name :: string
  role :: "WerewolfRole option"
  isAlive :: bool
  actionTokens :: int
  hasActedThisRound :: bool
  hasVotedThisRound :: bool

record NightAction =
  a_playerId :: PlayerId
  a_targetId :: "PlayerId option"
  actionType :: NightActionType
  a_round :: int
  a_timestamp :: int

record Vote =
  voterId :: PlayerId
  v_targetId :: "PlayerId option"
  v_round :: int
  v_timestamp :: int

text \<open>
  The game state. The fields \<open>id\<close>, \<open>name\<close>, \<open>hostId\<close>, \<open>mode\<close>, \<open>settings\<close> and
  \<open>createdAt\<close> of the interface are copied unchanged by every \<open>{...state, ...}\<close> below
  and are left in the extension part of the record.
\<close>

record WerewolfGameState =
  phase :: GamePhase
  round_no :: int
  players :: "WerewolfPlayer list"
  nightActions :: "NightAction list"
  votes :: "Vote list"
  eliminatedToday :: "PlayerId option"
  killedTonight :: "PlayerId option"
  savedTonight :: "PlayerId option"
  winner :: WinCondition
  updatedAt :: int

definition truthy :: "PlayerId option \<Rightarrow> bool" where
  "truthy x = (case x of None \<Rightarrow> False | Some s \<Rightarrow> s \<noteq> [])"

section \<open>Win conditions (werewolf/win-conditions.ts)\<close>

definition checkWinCondition :: "WerewolfPlayer list \<Rightarrow> WinCondition" where
  "checkWinCondition ps =
     (let alivePlayers = filter isAlive ps;
          aliveWerewolves = filter (\<lambda>p. role p = Some Werewolf) alivePlayers;
          aliveVillagers = filter (\<lambda>p. role p \<noteq> Some Werewolf) alivePlayers
      in if length aliveWerewolves \<ge> length aliveVillagers then Werewolves
         else if length aliveWerewolves = 0 then Villagers
         else NoWinner)"

section \<open>JavaScript objects used as counters\<close>

text \<open>
  \<open>const votes: Record<PlayerId, number> = {}\<close> followed by
  \<open>votes[k] = (votes[k] ?? 0) + 1\<close> is a property list in insertion order, but the
  object inherits from \<open>Object.prototype\<close>. For a key that is not yet an own property,
  \<open>votes[k]\<close> reads the inherited member when \<open>k\<close> names one: a function for the eleven
  names of \<open>prototypeFunctions\<close>, the prototype object itself for \<open>__proto__\<close>. Neither is
  \<open>null\<close> or \<open>undefined\<close>, so \<open>?? 0\<close> keeps it and \<open>+ 1\<close> concatenates: the result is a
  string (the text of the member followed by \<open>1\<close>; the text depends on the engine and
  nothing reads it, so a string value is just \<open>Str\<close>). The assignment stores the string
  as an own property, except for \<open>__proto__\<close>, whose setter ignores a string. A stored
  string grows by another \<open>1\<close> at each further increment and stays a string. A string
  compared with a number by \<open>>\<close> is converted to \<open>NaN\<close> and the comparison is false;
  \<open>===\<close> between a string and a number is false.

  \<open>Object.entries\<close> lists the own properties whose key is an array index (the canonical
  decimal string of an integer below \<open>2^32 - 1\<close>) first, in ascending numeric order, and
  then the other string keys in insertion order.
\<close>

datatype jsvalue = Num nat | Str

type_synonym counts = "(PlayerId \<times> jsvalue) list"

definition prototypeFunctions :: "string list" where
  "prototypeFunctions =
     [''constructor'', ''__defineGetter__'', ''__defineSetter__'', ''hasOwnProperty'',
      ''__lookupGetter__'', ''__lookupSetter__'', ''isPrototypeOf'',
      ''propertyIsEnumerable'', ''toString'', ''valueOf'', ''toLocaleString'']"

fun plusOne :: "jsvalue \<Rightarrow> jsvalue" where
  "plusOne (Num n) = Num (n + 1)"
| "plusOne Str = Str"

fun bump :: "counts \<Rightarrow> PlayerId \<Rightarrow> counts" where
  "bump [] k =
     (if k = ''__proto__'' then []
      else if k \<in> set prototypeFunctions then [(k, Str)]
      else [(k, Num 1)])"
| "bump ((k', v) # r) k = (if k' = k then (k', plusOne v) # r else (k', v) # bump r k)"

definition isDigit :: "char \<Rightarrow> bool" where
  "isDigit c = (48 \<le> (of_char c :: nat) \<and> (of_char c :: nat) \<le> 57)"

definition digitsValue :: "string \<Rightarrow> nat" where
  "digitsValue s = foldl (\<lambda>n c. 10 * n + ((of_char c :: nat) - 48)) 0 s"

definition isArrayIndex :: "string \<Rightarrow> bool" where
  "isArrayIndex s =
     (s \<noteq> [] \<and> list_all isDigit s
      \<and> (if s = ''0'' then True else hd s \<noteq> CHR ''0'')
      \<and> digitsValue s < 4294967295)"

definition Object_entries :: "counts \<Rightarrow> counts" where
  "Object_entries r =
     sort_key (\<lambda>e. digitsValue (fst e)) (filter (\<lambda>e. isArrayIndex (fst e)) r)
     @ filter (\<lambda>e. \<not> isArrayIndex (fst e)) r"

section \<open>Voting (werewolf/voting.ts)\<close>

record Validation =
  valid :: bool
  reason :: "string option"

definition canVote ::
  "WerewolfPlayer \<Rightarrow> WerewolfPlayer option \<Rightarrow> 'a WerewolfGameState_scheme \<Rightarrow> Validation" where
  "canVote voter target s =
     (if \<not> isAlive voter then \<lparr>valid = False, reason = Some ''Dead players cannot vote''\<rparr>
      else if phase s \<noteq> Voting
        then \<lparr>valid = False, reason = Some ''Voting only during voting phase''\<rparr>
      else if hasVotedThisRound voter
        then \<lparr>valid = False, reason = Some ''Already voted this round''\<rparr>
      else if (case target of None \<Rightarrow> False | Some t \<Rightarrow> \<not> isAlive t)
        then \<lparr>valid = False, reason = Some ''Cannot vote for dead players''\<rparr>
      else \<lparr>valid = True, reason = None\<rparr>)"

text \<open>The two readings of \<open>Date.now()\<close> in one call are one argument \<open>now\<close>.\<close>

definition submitVote ::
  "'a WerewolfGameState_scheme \<Rightarrow> PlayerId \<Rightarrow> PlayerId option \<Rightarrow> int
     \<Rightarrow> 'a WerewolfGameState_scheme" where
  "submitVote s voter targetId now =
     (let vote = \<lparr>voterId = voter, v_targetId = targetId, v_round = round_no s,
                   v_timestamp = now\<rparr>
      in s\<lparr>votes := votes s @ [vote],
           players := map (\<lambda>p. if p_id p = voter then p\<lparr>hasVotedThisRound := True\<rparr> else p)
                        (players s),
           updatedAt := now\<rparr>)"

record TallyResult =
  results :: counts
  abstentions :: nat
  leader :: "PlayerId option"
  isTie :: bool

fun countVotes :: "Vote list \<Rightarrow> counts \<times> nat \<Rightarrow> counts \<times> nat" where
  "countVotes [] acc = acc"
| "countVotes (vote # vs) (res, abst) =
     (case v_targetId vote of
        None \<Rightarrow> countVotes vs (res, abst + 1)
      | Some t \<Rightarrow> countVotes vs (bump res t, abst))"

fun findLeader ::
  "counts \<Rightarrow> nat \<times> PlayerId option \<times> bool \<Rightarrow> nat \<times> PlayerId option \<times> bool" where
  "findLeader [] acc = acc"
| "findLeader ((playerId, Num count) # es) (maxVotes, ldr, tie) =
     (if count > maxVotes then findLeader es (count, Some playerId, False)
      else if count = maxVotes then findLeader es (maxVotes, ldr, True)
      else findLeader es (maxVotes, ldr, tie))"
| "findLeader ((playerId, Str) # es) (maxVotes, ldr, tie) = findLeader es (maxVotes, ldr, tie)"

definition currentRoundVotes :: "'a WerewolfGameState_scheme \<Rightarrow> Vote list" where
  "currentRoundVotes s = filter (\<lambda>v. v_round v = round_no s) (votes s)"

definition tallyVotes :: "'a WerewolfGameState_scheme \<Rightarrow> TallyResult" where
  "tallyVotes s =
     (case countVotes (currentRoundVotes s) ([], 0) of (res, abst) \<Rightarrow>
      case findLeader (Object_entries res) (0, None, False) of (maxVotes, ldr, tie) \<Rightarrow>
        \<lparr>results = res, abstentions = abst, leader = ldr, isTie = tie\<rparr>)"

definition eliminate :: "PlayerId \<Rightarrow> WerewolfPlayer list \<Rightarrow> WerewolfPlayer list" where
  "eliminate t ps = map (\<lambda>p. if p_id p = t then p\<lparr>isAlive := False\<rparr> else p) ps"

definition resolveVoting ::
  "'a WerewolfGameState_scheme \<Rightarrow> PlayerId option \<Rightarrow> int \<Rightarrow> 'a WerewolfGameState_scheme" where
  "resolveVoting s hunterRevengeTargetId now =
     (let t = tallyVotes s in
      if isTie t \<or> \<not> truthy (leader t) then s\<lparr>eliminatedToday := None, updatedAt := now\<rparr>
      else
        case leader t of
          None \<Rightarrow> s\<lparr>eliminatedToday := None, updatedAt := now\<rparr>
        | Some l \<Rightarrow>
           (case find (\<lambda>p. p_id p = l) (players s) of
              None \<Rightarrow> s\<lparr>eliminatedToday := None, updatedAt := now\<rparr>
            | Some eliminatedPlayer \<Rightarrow>
               (let updatedPlayers = eliminate l (players s);
                    updatedPlayers2 =
                      (if role eliminatedPlayer = Some Hunter \<and> truthy hunterRevengeTargetId
                          \<and> hunterRevengeTargetId \<noteq> Some l
                       then
                         (case hunterRevengeTargetId of
                            None \<Rightarrow> updatedPlayers
                          | Some h \<Rightarrow>
                             (case find (\<lambda>p. p_id p = h \<and> isAlive p) updatedPlayers of
                                None \<Rightarrow> updatedPlayers
                              | Some revengeTarget \<Rightarrow> eliminate h updatedPlayers))
                       else updatedPlayers)
                in s\<lparr>players := updatedPlayers2, eliminatedToday := Some l,
                      updatedAt := now\<rparr>)))"

section \<open>Night actions (werewolf/actions.ts)\<close>

fun countTargets :: "NightAction list \<Rightarrow> counts \<Rightarrow> counts" where
  "countTargets [] vs = vs"
| "countTargets (action # as) vs =
     (case a_targetId action of
        None \<Rightarrow> countTargets as vs
      | Some t \<Rightarrow> if t \<noteq> [] then countTargets as (bump vs t) else countTargets as vs)"

fun findMajority :: "counts \<Rightarrow> nat \<times> PlayerId option \<Rightarrow> nat \<times> PlayerId option" where
  "findMajority [] acc = acc"
| "findMajority ((playerId, Num count) # es) (maxVotes, target) =
     (if count > maxVotes then findMajority es (count, Some playerId)
      else findMajority es (maxVotes, target))"
| "findMajority ((playerId, Str) # es) (maxVotes, target) = findMajority es (maxVotes, target)"

definition getMajorityTarget :: "NightAction list \<Rightarrow> PlayerId option" where
  "getMajorityTarget actions =
     (if length actions = 0 then None
      else snd (findMajority (Object_entries (countTargets actions [])) (0, None)))"

definition resolveNightActions ::
  "'a WerewolfGameState_scheme \<Rightarrow> int \<Rightarrow> 'a WerewolfGameState_scheme" where
  "resolveNightActions s now =
     (let currentRoundActions = filter (\<lambda>a. a_round a = round_no s) (nightActions s);
          killVotes = filter (\<lambda>a. actionType a = Kill) currentRoundActions;
          killTarget = getMajorityTarget killVotes;
          protectAction = find (\<lambda>a. actionType a = Protect) currentRoundActions;
          protectedTarget = (case protectAction of None \<Rightarrow> None | Some a \<Rightarrow> a_targetId a);
          killSucceeds = (truthy killTarget \<and> killTarget \<noteq> protectedTarget)
      in case killTarget of
           None \<Rightarrow> s\<lparr>killedTonight := None, savedTonight := None, updatedAt := now\<rparr>
         | Some k \<Rightarrow>
            if \<not> truthy killTarget
              then s\<lparr>killedTonight := None, savedTonight := None, updatedAt := now\<rparr>
            else if killSucceeds
              then s\<lparr>players := eliminate k (players s), killedTonight := Some k,
                     savedTonight := None, updatedAt := now\<rparr>
            else if protectedTarget = killTarget
              then s\<lparr>killedTonight := None, savedTonight := Some k, updatedAt := now\<rparr>
            else s\<lparr>killedTonight := None, savedTonight := None, updatedAt := now\<rparr>)"

section \<open>Phases (werewolf/phases.ts)\<close>

text \<open>
  A phase is one of the six values of its type, so the \<open>default\<close> branches of the
  switches over the phase are never taken and have no counterpart here.
\<close>

definition getNextPhase :: "GamePhase \<Rightarrow> GamePhase" where
  "getNextPhase currentPhase =
     (case currentPhase of
        Setup \<Rightarrow> Night
      | Night \<Rightarrow> Day
      | Day \<Rightarrow> Voting
      | Voting \<Rightarrow> Resolution
      | Resolution \<Rightarrow> Night
      | Ended \<Rightarrow> Ended)"

record Transition =
  canTransition :: bool
  t_reason :: "string option"

definition canTransitionPhase :: "'a WerewolfGameState_scheme \<Rightarrow> Transition" where
  "canTransitionPhase s =
     (let alivePlayers = filter isAlive (players s) in
      case phase s of
        Setup \<Rightarrow>
          if \<not> list_all (\<lambda>p. role p \<noteq> None) (players s)
            then \<lparr>canTransition = False, t_reason = Some ''Roles not assigned''\<rparr>
          else if length (players s) < 4
            then \<lparr>canTransition = False, t_reason = Some ''Need at least 4 players''\<rparr>
          else \<lparr>canTransition = True, t_reason = None\<rparr>
      | Night \<Rightarrow>
          (let playersWithActions =
                 filter (\<lambda>p. role p = Some Werewolf \<or> role p = Some Seer \<or> role p = Some Doctor)
                   alivePlayers
           in if \<not> list_all hasActedThisRound playersWithActions
                then \<lparr>canTransition = False, t_reason = Some ''Waiting for night actions''\<rparr>
              else \<lparr>canTransition = True, t_reason = None\<rparr>)
      | Day \<Rightarrow> \<lparr>canTransition = True, t_reason = None\<rparr>
      | Voting \<Rightarrow>
          if \<not> list_all hasVotedThisRound alivePlayers
            then \<lparr>canTransition = False, t_reason = Some ''Waiting for all votes''\<rparr>
          else \<lparr>canTransition = True, t_reason = None\<rparr>
      | Resolution \<Rightarrow> \<lparr>canTransition = True, t_reason = None\<rparr>
      | Ended \<Rightarrow> \<lparr>canTransition = False, t_reason = Some ''Game has ended''\<rparr>)"

definition transitionPhase ::
  "'a WerewolfGameState_scheme \<Rightarrow> int \<Rightarrow> 'a WerewolfGameState_scheme" where
  "transitionPhase s now =
     (let nextPhase = getNextPhase (phase s);
          winCondition = checkWinCondition (players s)
      in if winCondition \<noteq> NoWinner
           then s\<lparr>phase := Ended, winner := winCondition, updatedAt := now\<rparr>
         else if nextPhase = Night \<and> phase s = Resolution
           then s\<lparr>phase := nextPhase, round_no := round_no s + 1,
                  players := map (\<lambda>p. p\<lparr>hasActedThisRound := False,
                                          hasVotedThisRound := False\<rparr>) (players s),
                  eliminatedToday := None, killedTonight := None, savedTonight := None,
                  updatedAt := now\<rparr>
         else s\<lparr>phase := nextPhase, round_no := round_no s, players := players s,
                eliminatedToday := None, killedTonight := None, savedTonight := None,
                updatedAt := now\<rparr>)"

definition advanceGameToNextPhase ::
  "'a WerewolfGameState_scheme \<Rightarrow> PlayerId option \<Rightarrow> int \<Rightarrow> 'a WerewolfGameState_scheme" where
  "advanceGameToNextPhase s hunterRevengeTargetId now =
     (if \<not> canTransition (canTransitionPhase s) then s
      else if phase s = Night then transitionPhase (resolveNightActions s now) now
      else if phase s = Voting
        then transitionPhase (resolveVoting s hunterRevengeTargetId now) now
      else transitionPhase s now)"

section \<open>Role configuration (werewolf/roles.ts)\<close>




section \<open>The server store (convex/schema.ts)\<close>

text \<open>
  A table is the list of its documents in creation order and a document id is the
  position of the document in its table; \<open>ctx.db.get\<close> of an id that denotes no
  document is \<open>null\<close>. Ids of the store are never empty strings, so a truthiness test on
  an optional id is a test for presence. A handler returns the store as its writes left
  it together with either the thrown error or the returned value.
\<close>

type_synonym Id = nat

datatype error = Error string

record GameDoc =
  g_phase :: GamePhase
  g_round :: int
  g_winner :: "WinCondition option"
  g_updatedAt :: int

record PlayerDoc =
  pd_gameId :: Id
  pd_role :: "WerewolfRole option"
  pd_isAlive :: bool
  pd_hasActedThisRound :: bool
  pd_hasVotedThisRound :: bool

record ActionDoc =
  ad_gameId :: Id
  ad_playerId :: Id
  ad_targetId :: "Id option"
  ad_actionType :: NightActionType
  ad_round :: int
  ad_timestamp :: int

record VoteDoc =
  vd_gameId :: Id
  vd_voterId :: Id
  vd_targetId :: "Id option"
  vd_round :: int
  vd_timestamp :: int

datatype GameEvent =
    PhaseAdvanced Id GamePhase GamePhase int int
  | NightResolved Id int "Id option" int

record Db =
  db_games :: "GameDoc list"
  db_players :: "PlayerDoc list"
  db_actions :: "ActionDoc list"
  db_votes :: "VoteDoc list"
  db_events :: "GameEvent list"
  db_scheduled :: "(Id \<times> GamePhase \<times> int) list"

definition db_get :: "'a list \<Rightarrow> Id \<Rightarrow> 'a option" where
  "db_get t i = (if i < length t then Some (t ! i) else None)"

section \<open>Casting a vote on the server (convex/werewolf/voting.ts)\<close>

definition castVote :: "Db \<Rightarrow> Id \<Rightarrow> Id \<Rightarrow> Id option \<Rightarrow> int \<Rightarrow> Db \<times> (error + Id)" where
  "castVote db gameId voter targetId now =
     (case db_get (db_games db) gameId of
        None \<Rightarrow> (db, Inl (Error ''Game not found''))
      | Some game \<Rightarrow>
         if g_phase game \<noteq> Day \<and> g_phase game \<noteq> Voting
           then (db, Inl (Error ''Votes are only allowed in day or voting phase''))
         else
           (case db_get (db_players db) voter of
              None \<Rightarrow> (db, Inl (Error ''Voter not in game''))
            | Some voterDoc \<Rightarrow>
               if pd_gameId voterDoc \<noteq> gameId then (db, Inl (Error ''Voter not in game''))
               else if \<not> pd_isAlive voterDoc
                 then (db, Inl (Error ''Eliminated players cannot vote''))
               else
                 (let roundVotes =
                        filter (\<lambda>iv. vd_gameId (snd iv) = gameId \<and> vd_round (snd iv) = g_round game)
                          (enumerate 0 (db_votes db))
                  in case find (\<lambda>iv. vd_voterId (snd iv) = voter) roundVotes of
                       Some (i, existing) \<Rightarrow>
                         (db\<lparr>db_votes := (db_votes db)
                               [i := existing\<lparr>vd_targetId := targetId, vd_timestamp := now\<rparr>]\<rparr>,
                          Inr i)
                     | None \<Rightarrow>
                         (db\<lparr>db_votes := db_votes db @
                                 [\<lparr>vd_gameId = gameId, vd_voterId = voter, vd_targetId = targetId,
                                   vd_round = g_round game, vd_timestamp = now\<rparr>],
                              db_players := (db_players db)
                                 [voter := voterDoc\<lparr>pd_hasVotedThisRound := True\<rparr>]\<rparr>,
                          Inr (length (db_votes db))))))"

section \<open>Night resolution on the server (convex/werewolf/actions.ts)\<close>

text \<open>A \<open>Map\<close> used as a counter iterates in insertion order.\<close>

fun bumpMap :: "(Id \<times> nat) list \<Rightarrow> Id \<Rightarrow> (Id \<times> nat) list" where
  "bumpMap [] k = [(k, 1)]"
| "bumpMap ((k', n) # r) k = (if k' = k then (k', n + 1) # r else (k', n) # bumpMap r k)"

fun countKills :: "ActionDoc list \<Rightarrow> (Id \<times> nat) list \<Rightarrow> (Id \<times> nat) list" where
  "countKills [] m = m"
| "countKills (action # as) m =
     (case ad_targetId action of
        None \<Rightarrow> countKills as m
      | Some t \<Rightarrow> countKills as (bumpMap m t))"

fun maxKill :: "(Id \<times> nat) list \<Rightarrow> Id option \<times> nat \<Rightarrow> Id option \<times> nat" where
  "maxKill [] acc = acc"
| "maxKill ((targetId, count) # es) (eliminatedPlayerId, maxVotes) =
     (if count > maxVotes then maxKill es (Some targetId, count)
      else maxKill es (eliminatedPlayerId, maxVotes))"

record NightResult =
  nr_round :: int
  eliminatedPlayerId :: "Id option"
  protectedTargets :: "Id list"
  actionsProcessed :: nat

definition roundActions :: "Db \<Rightarrow> Id \<Rightarrow> int \<Rightarrow> ActionDoc list" where
  "roundActions db gameId r =
     filter (\<lambda>a. ad_gameId a = gameId \<and> ad_round a = r) (db_actions db)"

definition killCandidate :: "ActionDoc list \<Rightarrow> Id option" where
  "killCandidate actions =
     (let killTargets = filter (\<lambda>a. ad_actionType a = Kill \<and> ad_targetId a \<noteq> None) actions
      in fst (maxKill (countKills killTargets []) (None, 0)))"

definition protectSet :: "ActionDoc list \<Rightarrow> Id list" where
  "protectSet actions =
     rev (remdups (rev (concat (map (\<lambda>a. case ad_targetId a of None \<Rightarrow> [] | Some t \<Rightarrow> [t])
        (filter (\<lambda>a. ad_actionType a = Protect \<and> ad_targetId a \<noteq> None) actions)))))"

definition resolveNightActions_server ::
  "Db \<Rightarrow> Id \<Rightarrow> int \<Rightarrow> Db \<times> (error + NightResult)" where
  "resolveNightActions_server db gameId now =
     (case db_get (db_games db) gameId of
        None \<Rightarrow> (db, Inl (Error ''Game not found''))
      | Some game \<Rightarrow>
         (let actions = roundActions db gameId (g_round game);
              protectTargets = protectSet actions;
              candidate = killCandidate actions;
              eliminated =
                (case candidate of
                   None \<Rightarrow> None
                 | Some e \<Rightarrow> if e \<in> set protectTargets then None else Some e)
          in case eliminated of
               Some e \<Rightarrow>
                 if e < length (db_players db)
                 then
                   (db\<lparr>db_players := (db_players db)
                          [e := (db_players db ! e)\<lparr>pd_isAlive := False\<rparr>],
                       db_events := db_events db @
                          [NightResolved gameId (g_round game) eliminated now]\<rparr>,
                    Inr \<lparr>nr_round = g_round game, eliminatedPlayerId = eliminated,
                         protectedTargets = protectTargets,
                         actionsProcessed = length actions\<rparr>)
                 else (db, Inl (Error ''Update on nonexistent document''))
             | None \<Rightarrow>
                 (db\<lparr>db_events := db_events db @
                        [NightResolved gameId (g_round game) eliminated now]\<rparr>,
                  Inr \<lparr>nr_round = g_round game, eliminatedPlayerId = eliminated,
                       protectedTargets = protectTargets,
                       actionsProcessed = length actions\<rparr>)))"

section \<open>Advancing the phase on the server (convex/werewolf/phases.ts)\<close>

definition orderedPhases :: "GamePhase list" where
  "orderedPhases = [Setup, Night, Day, Voting, Resolution, Ended]"

fun indexOf :: "'a list \<Rightarrow> 'a \<Rightarrow> int" where
  "indexOf [] x = - 1"
| "indexOf (y # ys) x =
     (if y = x then 0 else (let i = indexOf ys x in if i = - 1 then - 1 else i + 1))"

definition getNextPhase_server :: "GamePhase \<Rightarrow> GamePhase" where
  "getNextPhase_server currentPhase =
     (let index = indexOf orderedPhases currentPhase in
      if index = - 1 \<or> index = int (length orderedPhases) - 1 then currentPhase
      else orderedPhases ! nat (index + 1))"

definition advancePhase :: "Db \<Rightarrow> Id \<Rightarrow> int \<Rightarrow> Db \<times> (error + GamePhase \<times> int)" where
  "advancePhase db gameId now =
     (case db_get (db_games db) gameId of
        None \<Rightarrow> (db, Inl (Error ''Game not found''))
      | Some game \<Rightarrow>
         if g_phase game = Ended then (db, Inr (g_phase game, g_round game))
         else
           (let nextPhase = getNextPhase_server (g_phase game);
                r = (if nextPhase = Night then g_round game + 1 else g_round game);
                db1 = db\<lparr>db_games := (db_games db)
                         [gameId := game\<lparr>g_phase := nextPhase, g_round := r,
                                          g_updatedAt := now\<rparr>]\<rparr>;
                db2 = (if nextPhase = Night \<or> nextPhase = Day
                       then db1\<lparr>db_players :=
                              map (\<lambda>p. if pd_gameId p = gameId
                                        then p\<lparr>pd_hasActedThisRound := False,
                                               pd_hasVotedThisRound := False\<rparr>
                                        else p) (db_players db1)\<rparr>
                       else db1);
                db3 = db2\<lparr>db_events := db_events db2 @
                         [PhaseAdvanced gameId (g_phase game) nextPhase r now]\<rparr>;
                db4 = db3\<lparr>db_scheduled := db_scheduled db3 @ [(gameId, nextPhase, r)]\<rparr>
            in (db4, Inr (nextPhase, r))))"

section \<open>Fallback decisions (convex/lib/aiDecisions.ts)\<close>

record Candidate =
  c_id :: string
  c_name :: string

record InvestigationResult =
  ir_playerId :: string
  isWerewolf :: bool

datatype Difficulty = Easy | Medium | Hard

record FallbackOptions =
  difficulty :: Difficulty
  knownWerewolves :: "string list option"
  investigationResults :: "InvestigationResult list option"
  selfId :: "string option"

record ParsedDecision =
  targetId :: "string option"
  reasoning :: string

text \<open>
  \<open>Math.random()\<close> yields a number \<open>r\<close> with \<open>0 \<le> r < 1\<close>; its outcome is an argument.
  \<open>targets[idx].id\<close> throws a TypeError when \<open>idx\<close> is not a position of the array.
  The difficulty is one of its three values, so the \<open>default\<close> branch of
  \<open>selectByDifficulty\<close> is never taken.
\<close>

definition pick :: "Candidate list \<Rightarrow> int \<Rightarrow> string \<Rightarrow> error + ParsedDecision" where
  "pick xs idx why =
     (if 0 \<le> idx \<and> idx < int (length xs)
      then Inr \<lparr>targetId = Some (c_id (xs ! nat idx)), reasoning = why\<rparr>
      else Inl (Error ''TypeError''))"

definition nonEmpty :: "'a list option \<Rightarrow> bool" where
  "nonEmpty x = (case x of None \<Rightarrow> False | Some l \<Rightarrow> l \<noteq> [])"

definition selectByDifficulty ::
  "Candidate list \<Rightarrow> FallbackOptions \<Rightarrow> real \<Rightarrow> error + ParsedDecision" where
  "selectByDifficulty targets options r =
     (case difficulty options of
        Easy \<Rightarrow>
          pick targets \<lfloor>r * real (length targets)\<rfloor> ''Random selection (easy difficulty fallback)''
      | Medium \<Rightarrow>
          (let halfIdx = max (length targets div 2) 1;
               pool = take halfIdx targets
           in pick pool \<lfloor>r * real (length pool)\<rfloor>
                ''Semi-strategic selection (medium difficulty fallback)'')
      | Hard \<Rightarrow>
          (let uninvestigated =
                 (case investigationResults options of
                    None \<Rightarrow> []
                  | Some rs \<Rightarrow>
                      if rs \<noteq> []
                      then filter (\<lambda>t. c_id t \<notin> set (map ir_playerId rs)) targets
                      else [])
           in if nonEmpty (investigationResults options) \<and> uninvestigated \<noteq> []
              then pick uninvestigated 0
                     ''Strategic: targeting uninvestigated player (hard fallback)''
              else pick targets 0 ''Strategic selection (hard difficulty fallback)''))"

definition selfChance :: "Difficulty \<Rightarrow> real" where
  "selfChance d = (case d of Easy \<Rightarrow> 3 / 10 | Medium \<Rightarrow> 2 / 10 | Hard \<Rightarrow> 1 / 10)"

text \<open>
  \<open>r1\<close> is the outcome of the draw of the self-protection branch and \<open>r2\<close> the outcome of
  the draw of the selection; the draws are independent, so which call of the generator
  produced them does not matter.
\<close>

definition fallbackDecision ::
  "string \<Rightarrow> string \<Rightarrow> Candidate list \<Rightarrow> FallbackOptions \<Rightarrow> real \<Rightarrow> real
     \<Rightarrow> error + ParsedDecision" where
  "fallbackDecision rl ph candidates options r1 r2 =
     (if length candidates = 0
      then Inr \<lparr>targetId = None, reasoning = ''No valid targets available''\<rparr>
      else
        (let filtered =
               (case knownWerewolves options of
                  None \<Rightarrow> []
                | Some ws \<Rightarrow> filter (\<lambda>c. c_id c \<notin> set ws) candidates);
             targets =
               (if rl = ''werewolf'' \<and> nonEmpty (knownWerewolves options) \<and> filtered \<noteq> []
                then filtered else candidates);
             wolfTarget =
               (if (ph = ''voting'' \<or> ph = ''day'') \<and> nonEmpty (investigationResults options)
                then
                  (case investigationResults options of
                     None \<Rightarrow> None
                   | Some rs \<Rightarrow>
                      (case find isWerewolf rs of
                         None \<Rightarrow> None
                       | Some knownWolf \<Rightarrow> find (\<lambda>t. c_id t = ir_playerId knownWolf) targets))
                else None)
         in case wolfTarget of
              Some w \<Rightarrow>
                Inr \<lparr>targetId = Some (c_id w),
                     reasoning = ''Targeting a confirmed werewolf from investigation''\<rparr>
            | None \<Rightarrow>
                if rl = ''doctor'' \<and> ph = ''night'' \<and> truthy (selfId options)
                   \<and> r1 < selfChance (difficulty options)
                then Inr \<lparr>targetId = selfId options, reasoning = ''Self-protection for safety''\<rparr>
                else selectByDifficulty targets options r2))"

section \<open>The state handed to the table transition\<close>

text \<open>
  \<open>advanceGameToNextPhase\<close> resolves the pending work of the current phase before it
  calls \<open>transitionPhase\<close>; \<open>afterResolution\<close> names the state it passes on.
\<close>

definition afterResolution ::
  "'a WerewolfGameState_scheme \<Rightarrow> PlayerId option \<Rightarrow> int \<Rightarrow> 'a WerewolfGameState_scheme" where
  "afterResolution s h now =
     (if phase s = Night then resolveNightActions s now
      else if phase s = Voting then resolveVoting s h now
      else s)"

section \<open>Notions used in the statements\<close>

text \<open>
  \<open>votesFor s t\<close> is the number of votes of the current round cast for \<open>t\<close>;
  \<open>voteKey\<close> is the (game, voter, round) a vote document of the store belongs to;
  \<open>voteInv\<close> says that in the game state no voter has two votes in the current round and
  that every player who has one carries the flag \<open>hasVotedThisRound\<close>.
  \<open>specialRoles\<close> is what \<open>generateRoleDistribution\<close> takes from \<open>includeRoles\<close>: the
  roles other than werewolf and villager.
\<close>

definition votesFor :: "'a WerewolfGameState_scheme \<Rightarrow> PlayerId \<Rightarrow> nat" where
  "votesFor s t = length (filter (\<lambda>v. v_targetId v = Some t) (currentRoundVotes s))"

definition voteKey :: "VoteDoc \<Rightarrow> Id \<times> Id \<times> int" where
  "voteKey d = (vd_gameId d, vd_voterId d, vd_round d)"

definition voteInv :: "'a WerewolfGameState_scheme \<Rightarrow> bool" where
  "voteInv s =
     (distinct (map voterId (currentRoundVotes s))
      \<and> (\<forall>vote \<in> set (currentRoundVotes s). \<forall>p \<in> set (players s).
            p_id p = voterId vote \<longrightarrow> hasVotedThisRound p))"


text \<open>
  Auxiliary notions for the loops. An id is ordinary when it names no member of
  \<open>Object.prototype\<close>; \<open>ordinaryVotes\<close> are the votes the counter object can hold as a
  number; \<open>cnt\<close> is the number a property list holds for a key; \<open>wellCounted\<close> is what
  \<open>bump\<close> maintains; \<open>leaderInv\<close> is what the leader loop knows after the entries \<open>es\<close>.
\<close>

definition ordinaryId :: "PlayerId \<Rightarrow> bool" where
  "ordinaryId k = (k \<noteq> ''__proto__'' \<and> k \<notin> set prototypeFunctions)"

definition ordinaryVotes :: "'a WerewolfGameState_scheme \<Rightarrow> PlayerId \<Rightarrow> nat" where
  "ordinaryVotes s t = (if ordinaryId t then votesFor s t else 0)"

definition cnt :: "counts \<Rightarrow> PlayerId \<Rightarrow> nat" where
  "cnt r k = (case map_of r k of Some (Num n) \<Rightarrow> n | _ \<Rightarrow> 0)"

definition wellCounted :: "counts \<Rightarrow> bool" where
  "wellCounted r =
     (distinct (map fst r)
      \<and> (\<forall>(k, v) \<in> set r. if ordinaryId k then (\<exists>n. 0 < n \<and> v = Num n) else v = Str))"

definition numbers :: "counts \<Rightarrow> (PlayerId \<times> nat) set" where
  "numbers es = {(k, n). (k, Num n) \<in> set es}"

definition leaderInv :: "counts \<Rightarrow> nat \<times> PlayerId option \<times> bool \<Rightarrow> bool" where
  "leaderInv es acc =
     (case acc of (m, l, tie) \<Rightarrow>
        (\<forall>(k, n) \<in> numbers es. n \<le> m)
        \<and> (case l of
             None \<Rightarrow> numbers es = {} \<and> m = 0 \<and> \<not> tie
           | Some k \<Rightarrow> (k, m) \<in> numbers es
                \<and> tie = (\<exists>k'. k' \<noteq> k \<and> (k', m) \<in> numbers es)))"

section \<open>Example states\<close>

definition examplePlayer :: "string \<Rightarrow> WerewolfRole \<Rightarrow> WerewolfPlayer" where
  "examplePlayer i r =
     \<lparr>p_id = i, p_name = i, role = Some r, isAlive = True, actionTokens = 0,
      hasActedThisRound = True, hasVotedThisRound = True\<rparr>"

definition exampleRoster :: "WerewolfPlayer list" where
  "exampleRoster =
     [examplePlayer ''w'' Werewolf, examplePlayer ''a'' Villager, examplePlayer ''b'' Villager,
      examplePlayer ''d'' Doctor, examplePlayer ''h'' Hunter]"

definition exampleFive :: "WerewolfPlayer list" where
  "exampleFive =
     [examplePlayer ''w1'' Werewolf, examplePlayer ''w2'' Werewolf,
      examplePlayer ''v1'' Villager, examplePlayer ''v2'' Villager,
      examplePlayer ''v3'' Villager]"

definition exampleNight :: WerewolfGameState where
  "exampleNight =
     \<lparr>phase = Night, round_no = 1, players = exampleRoster,
      nightActions =
        [\<lparr>a_playerId = ''w'', a_targetId = Some ''a'', actionType = Kill, a_round = 1,
          a_timestamp = 10\<rparr>,
         \<lparr>a_playerId = ''d'', a_targetId = Some ''b'', actionType = Protect, a_round = 1,
          a_timestamp = 11\<rparr>],
      votes = [], eliminatedToday = None, killedTonight = None, savedTonight = None,
      winner = NoWinner, updatedAt = 11\<rparr>"

definition exampleDay :: WerewolfGameState where
  "exampleDay = exampleNight\<lparr>phase := Day\<rparr>"

definition freshVoter :: WerewolfPlayer where
  "freshVoter = (examplePlayer ''a'' Villager)\<lparr>hasVotedThisRound := False\<rparr>"

definition exampleDoc :: "WerewolfRole \<Rightarrow> PlayerDoc" where
  "exampleDoc r =
     \<lparr>pd_gameId = 0, pd_role = Some r, pd_isAlive = True, pd_hasActedThisRound = True,
      pd_hasVotedThisRound = True\<rparr>"

definition exampleDb :: "GamePhase \<Rightarrow> Db" where
  "exampleDb ph =
     \<lparr>db_games = [\<lparr>g_phase = ph, g_round = 1, g_winner = None, g_updatedAt = 0\<rparr>],
      db_players = [exampleDoc Werewolf, exampleDoc Villager, exampleDoc Villager,
                    exampleDoc Doctor],
      db_actions = [], db_votes = [], db_events = [], db_scheduled = []\<rparr>"

definition soleCandidate :: "Candidate list" where
  "soleCandidate = [\<lparr>c_id = ''a'', c_name = ''Ann''\<rparr>]"

definition doctorOptions :: FallbackOptions where
  "doctorOptions = \<lparr>difficulty = Hard, knownWerewolves = None, investigationResults = None,
     selfId = Some ''me''\<rparr>"

definition exampleVote :: "string \<Rightarrow> string \<Rightarrow> Vote" where
  "exampleVote v t = \<lparr>voterId = v, v_targetId = Some t, v_round = 1, v_timestamp = 30\<rparr>"

definition exampleVoting :: "Vote list \<Rightarrow> WerewolfGameState" where
  "exampleVoting vs = exampleNight\<lparr>phase := Voting, votes := vs\<rparr>"

definition openVoting :: WerewolfGameState where
  "openVoting =
     (exampleVoting [])\<lparr>players := map (\<lambda>p. p\<lparr>hasVotedThisRound := False\<rparr>) exampleRoster\<rparr>"

definition exampleRevoteDb :: Db where
  "exampleRevoteDb =
     (exampleDb Day)\<lparr>db_votes :=
        [\<lparr>vd_gameId = 0, vd_voterId = 1, vd_targetId = Some 0, vd_round = 1,
          vd_timestamp = 30\<rparr>]\<rparr>"


definition exampleToStringVoting :: WerewolfGameState where
  "exampleToStringVoting =
     (exampleVoting [exampleVote ''w'' ''toString'', exampleVote ''b'' ''toString'',
                     exampleVote ''toString'' ''a''])
       \<lparr>players := exampleRoster @ [examplePlayer ''toString'' Villager]\<rparr>"


section \<open>Win evaluation\<close>

text \<open>
  C6. For every roster, win evaluation returns werewolves iff the number of alive
  werewolves is at least the number of alive non-werewolves; otherwise it returns
  villagers iff no werewolf is alive; otherwise it returns none.
\<close>

theorem checkWinCondition_spec:
  fixes ps :: "WerewolfPlayer list"
  defines "w \<equiv> length (filter (\<lambda>p. isAlive p \<and> role p = Some Werewolf) ps)"
      and "v \<equiv> length (filter (\<lambda>p. isAlive p \<and> role p \<noteq> Some Werewolf) ps)"
  shows "(checkWinCondition ps = Werewolves) = (w \<ge> v)
       \<and> (checkWinCondition ps = Villagers) = (w < v \<and> w = 0)
       \<and> (checkWinCondition ps = NoWinner) = (w < v \<and> w \<noteq> 0)"
  unfolding w_def v_def checkWinCondition_def Let_def
  by (auto simp: conj_commute)

text \<open>
  Five alive players, two of them werewolves: the game continues; once one villager is
  eliminated the werewolves equal the others and win.
\<close>

theorem checkWinCondition_spec_witness:
  "checkWinCondition exampleFive = NoWinner
   \<and> checkWinCondition (eliminate ''v1'' exampleFive) = Werewolves"
  using checkWinCondition_spec [of exampleFive]
    checkWinCondition_spec [of "eliminate ''v1'' exampleFive"]
  by (simp add: exampleFive_def examplePlayer_def eliminate_def)

section \<open>Facts about the phase machine\<close>

lemma phase_resolveNightActions: "phase (resolveNightActions s now) = phase s"
  by (simp add: resolveNightActions_def Let_def split: option.splits)

lemma phase_resolveVoting: "phase (resolveVoting s h now) = phase s"
  by (simp add: resolveVoting_def Let_def split: option.splits)

lemma winner_resolveNightActions: "winner (resolveNightActions s now) = winner s"
  by (simp add: resolveNightActions_def Let_def split: option.splits)

lemma winner_resolveVoting: "winner (resolveVoting s h now) = winner s"
  by (simp add: resolveVoting_def Let_def split: option.splits)

lemma round_resolveNightActions: "round_no (resolveNightActions s now) = round_no s"
  by (simp add: resolveNightActions_def Let_def split: option.splits)

lemma round_resolveVoting: "round_no (resolveVoting s h now) = round_no s"
  by (simp add: resolveVoting_def Let_def split: option.splits)

lemma getNextPhase_not_Ended: "p \<noteq> Ended \<Longrightarrow> getNextPhase p \<noteq> Ended"
  by (cases p) (simp_all add: getNextPhase_def)

lemma transitionPhase_table:
  assumes "checkWinCondition (players s) = NoWinner"
  shows "phase (transitionPhase s now) = getNextPhase (phase s)"
    and "eliminatedToday (transitionPhase s now) = None"
    and "killedTonight (transitionPhase s now) = None"
    and "savedTonight (transitionPhase s now) = None"
    and "winner (transitionPhase s now) = winner s"
    and "map isAlive (players (transitionPhase s now)) = map isAlive (players s)"
    and "phase s \<noteq> Resolution \<Longrightarrow> players (transitionPhase s now) = players s"
    and "phase s \<noteq> Resolution \<Longrightarrow> round_no (transitionPhase s now) = round_no s"
  using assms by (simp_all add: transitionPhase_def Let_def o_def)

lemma transitionPhase_new_round:
  assumes "phase s = Resolution" and "checkWinCondition (players s) = NoWinner"
  shows "phase (transitionPhase s now) = Night"
    and "round_no (transitionPhase s now) = round_no s + 1"
    and "players (transitionPhase s now)
          = map (\<lambda>p. p\<lparr>hasActedThisRound := False, hasVotedThisRound := False\<rparr>) (players s)"
  using assms by (simp_all add: transitionPhase_def Let_def getNextPhase_def)

lemma transitionPhase_win:
  assumes "checkWinCondition (players s) \<noteq> NoWinner"
  shows "phase (transitionPhase s now) = Ended"
    and "winner (transitionPhase s now) = checkWinCondition (players s)"
  using assms by (simp_all add: transitionPhase_def Let_def)

lemma advance_Resolution:
  "phase s = Resolution \<Longrightarrow> advanceGameToNextPhase s h now = transitionPhase s now"
  by (simp add: advanceGameToNextPhase_def canTransitionPhase_def Let_def)

lemma advance_Ended: "phase s = Ended \<Longrightarrow> advanceGameToNextPhase s h now = s"
  by (simp add: advanceGameToNextPhase_def canTransitionPhase_def Let_def)

lemma advance_eq:
  "canTransition (canTransitionPhase s) \<Longrightarrow>
     advanceGameToNextPhase s h now = transitionPhase (afterResolution s h now) now"
  by (simp add: advanceGameToNextPhase_def afterResolution_def)

lemma phase_afterResolution: "phase (afterResolution s h now) = phase s"
  by (simp add: afterResolution_def phase_resolveNightActions phase_resolveVoting)

lemmas eval_defs = examplePlayer_def exampleRoster_def exampleNight_def
  resolveNightActions_def getMajorityTarget_def Object_entries_def isArrayIndex_def
  isDigit_def digitsValue_def truthy_def eliminate_def checkWinCondition_def
  prototypeFunctions_def
  canTransitionPhase_def afterResolution_def advanceGameToNextPhase_def transitionPhase_def getNextPhase_def Let_def

lemmas server_defs = exampleDoc_def exampleDb_def advancePhase_def db_get_def
  getNextPhase_server_def orderedPhases_def Let_def

section \<open>Reports are cleared by the table transition\<close>

text \<open>
  C10. Whenever \<open>advanceGameToNextPhase\<close> performs a table transition (the guard allows
  the advance and win evaluation on the resolved roster yields none), the returned state
  has \<open>eliminatedToday\<close>, \<open>killedTonight\<close> and \<open>savedTonight\<close> all null, also on the
  advance that leaves night or voting: what the resolution step of that same advance
  reported is gone, and only its changes to \<open>isAlive\<close> persist.
\<close>

theorem advance_clears_reports:
  assumes "canTransition (canTransitionPhase s)"
      and "checkWinCondition (players (afterResolution s h now)) = NoWinner"
  shows "eliminatedToday (advanceGameToNextPhase s h now) = None
       \<and> killedTonight (advanceGameToNextPhase s h now) = None
       \<and> savedTonight (advanceGameToNextPhase s h now) = None
       \<and> phase (advanceGameToNextPhase s h now) = getNextPhase (phase s)
       \<and> map isAlive (players (advanceGameToNextPhase s h now))
           = map isAlive (players (afterResolution s h now))"
  using assms
  by (simp add: advance_eq transitionPhase_table phase_afterResolution)

text \<open>
  On the example night the werewolf kills \<open>a\<close>: the resolved state reports the kill,
  the advanced state does not, and \<open>a\<close> stays dead.
\<close>

theorem advance_clears_reports_witness:
  "canTransition (canTransitionPhase exampleNight)
   \<and> checkWinCondition (players (afterResolution exampleNight None 20)) = NoWinner
   \<and> killedTonight (afterResolution exampleNight None 20) = Some ''a''
   \<and> killedTonight (advanceGameToNextPhase exampleNight None 20) = None
   \<and> eliminatedToday (advanceGameToNextPhase exampleNight None 20) = None
   \<and> savedTonight (advanceGameToNextPhase exampleNight None 20) = None
   \<and> phase (advanceGameToNextPhase exampleNight None 20) = Day
   \<and> map isAlive (players (advanceGameToNextPhase exampleNight None 20))
        = [True, False, True, True, True]"
  proof -
  have w1: "canTransition (canTransitionPhase exampleNight)"
    by (simp add: eval_defs)
  have w2: "killedTonight (afterResolution exampleNight None 20) = Some ''a''"
    by (simp add: eval_defs)
  have w3: "checkWinCondition (players (afterResolution exampleNight None 20)) = NoWinner"
    by (simp add: eval_defs)
  have w4: "map isAlive (players (afterResolution exampleNight None 20))
              = [True, False, True, True, True]"
    by (simp add: eval_defs)
  show ?thesis
    using advance_clears_reports [OF w1 w3] w1 w2 w3 w4
    by (simp add: getNextPhase_def exampleNight_def)
qed

section \<open>Starting a new round\<close>

text \<open>
  In the game-logic package both entry points start a new round from resolution when
  nobody has won: the phase becomes night, the round grows by one and every player's
  round flags are cleared.
\<close>

lemma advance_new_round:
  assumes "phase s = Resolution" and "checkWinCondition (players s) = NoWinner"
  shows "phase (advanceGameToNextPhase s h now) = Night
       \<and> round_no (advanceGameToNextPhase s h now) = round_no s + 1
       \<and> players (advanceGameToNextPhase s h now)
           = map (\<lambda>p. p\<lparr>hasActedThisRound := False, hasVotedThisRound := False\<rparr>) (players s)"
  using assms by (simp add: advance_Resolution transitionPhase_new_round)

lemma getNextPhase_server_Resolution: "getNextPhase_server Resolution = Ended"
  by (simp add: getNextPhase_server_def orderedPhases_def)

lemma advancePhase_from_resolution:
  assumes "db_get (db_games db) g = Some game" and "g_phase game = Resolution"
  shows "snd (advancePhase db g now) = Inr (Ended, g_round game)"
    and "db_players (fst (advancePhase db g now)) = db_players db"
  using assms by (simp_all add: advancePhase_def Let_def getNextPhase_server_Resolution)

text \<open>
  C1. For every game state in phase resolution for which win evaluation yields none,
  advancing the phase at any phase-advance entry point moves the game to night, increments
  the round by exactly 1 and clears every player's \<open>hasActedThisRound\<close> and
  \<open>hasVotedThisRound\<close>. The server mutation \<open>advancePhase\<close> does not: on a game in
  resolution in round 1 with one werewolf and three others alive it answers
  \<open>ended\<close>, leaves the round at 1 and leaves the flags set.
\<close>

theorem advancePhase_resolution_no_new_round:
  "snd (advancePhase (exampleDb Resolution) 0 50) = Inr (Ended, 1)
   \<and> map g_phase (db_games (fst (advancePhase (exampleDb Resolution) 0 50))) = [Ended]
   \<and> map g_round (db_games (fst (advancePhase (exampleDb Resolution) 0 50))) = [1]
   \<and> map pd_hasActedThisRound (db_players (fst (advancePhase (exampleDb Resolution) 0 50)))
        = [True, True, True, True]
   \<and> map pd_hasVotedThisRound (db_players (fst (advancePhase (exampleDb Resolution) 0 50)))
        = [True, True, True, True]"
  by (simp add: server_defs)

section \<open>The ended phase\<close>

text \<open>
  Advancing an ended game changes nothing, in the game-logic package and on the server,
  and the game-logic entry points keep \<open>winner \<noteq> none\<close> equivalent to
  \<open>phase = ended\<close>.
\<close>

lemma advancePhase_Ended_noop:
  "db_get (db_games db) g = Some game \<Longrightarrow> g_phase game = Ended \<Longrightarrow>
     advancePhase db g now = (db, Inr (Ended, g_round game))"
  by (simp add: advancePhase_def)

lemma transitionPhase_keeps_invariant:
  assumes "(winner s \<noteq> NoWinner) = (phase s = Ended)"
  shows "(winner (transitionPhase s now) \<noteq> NoWinner) = (phase (transitionPhase s now) = Ended)"
proof (cases "checkWinCondition (players s) = NoWinner")
  case True
  then show ?thesis
    using assms getNextPhase_not_Ended [of "phase s"]
    by (cases "phase s = Ended") (simp_all add: transitionPhase_table getNextPhase_def)
next
  case False
  then show ?thesis by (simp add: transitionPhase_win)
qed

lemma advance_keeps_invariant:
  assumes "(winner s \<noteq> NoWinner) = (phase s = Ended)"
  shows "(winner (advanceGameToNextPhase s h now) \<noteq> NoWinner)
         = (phase (advanceGameToNextPhase s h now) = Ended)"
proof (cases "canTransition (canTransitionPhase s)")
  case False
  then show ?thesis using assms by (simp add: advanceGameToNextPhase_def)
next
  case True
  have "(winner (afterResolution s h now) \<noteq> NoWinner) = (phase (afterResolution s h now) = Ended)"
    using assms
    by (simp add: afterResolution_def phase_resolveNightActions phase_resolveVoting
        winner_resolveNightActions winner_resolveVoting)
  then show ?thesis
    using True by (simp add: advance_eq transitionPhase_keeps_invariant)
qed

text \<open>
  C2. The phase ended is absorbing: advancing a game whose phase is ended returns the
  state unchanged; and in every state reachable through the advance operations,
  \<open>winner \<noteq> none\<close> holds if and only if \<open>phase = ended\<close>. The server mutation
  \<open>advancePhase\<close> breaks the second half: it takes a game from resolution to ended
  without recording any winner (a further advance is then a no-op).
\<close>

theorem advancePhase_ended_without_winner:
  "map g_phase (db_games (fst (advancePhase (exampleDb Resolution) 0 50))) = [Ended]
   \<and> map g_winner (db_games (fst (advancePhase (exampleDb Resolution) 0 50))) = [None]
   \<and> advancePhase (fst (advancePhase (exampleDb Resolution) 0 50)) 0 60
        = (fst (advancePhase (exampleDb Resolution) 0 50), Inr (Ended, 1))"
  by (simp add: server_defs)

section \<open>Role configuration\<close>




section \<open>Accepting a vote\<close>

text \<open>
  C8 as stated (a vote is accepted exactly when the voter is alive, the phase is day or
  voting, the voter has not voted this round and a non-null target is alive) fails for
  \<open>canVote\<close>: an alive voter who has not voted is rejected during the day.
\<close>

theorem canVote_day_counterexample:
  "isAlive freshVoter \<and> \<not> hasVotedThisRound freshVoter \<and> phase exampleDay = Day
   \<and> \<not> valid (canVote freshVoter None exampleDay)
   \<and> reason (canVote freshVoter None exampleDay) = Some ''Voting only during voting phase''"
  by (simp add: canVote_def freshVoter_def exampleDay_def exampleNight_def examplePlayer_def)

text \<open>
  C8, amended. \<open>canVote\<close> accepts exactly when the voter is alive, the phase is voting,
  the voter has not yet voted this round and the target, when non-null, is alive, and it
  gives a reason exactly when it rejects. The server mutation \<open>castVote\<close> rejects when
  the game does not exist, its phase is neither day nor voting, or the voter is not an
  alive player of that game; it accepts every alive player of the game during day or
  voting whose target is null or an alive player of that game, also one who has already
  voted; when it rejects, it throws before any write, so the store is unchanged.
\<close>

theorem vote_submission_rules:
  "valid (canVote voter target s)
     = (isAlive voter \<and> phase s = Voting \<and> \<not> hasVotedThisRound voter
        \<and> (case target of None \<Rightarrow> True | Some t \<Rightarrow> isAlive t))
   \<and> valid (canVote voter target s) = (reason (canVote voter target s) = None)
   \<and> (\<not> (\<exists>game voterDoc. db_get (db_games db) g = Some game
          \<and> (g_phase game = Day \<or> g_phase game = Voting)
          \<and> db_get (db_players db) v = Some voterDoc
          \<and> pd_gameId voterDoc = g \<and> pd_isAlive voterDoc) \<longrightarrow>
        isl (snd (castVote db g v tgt now)))
   \<and> ((\<exists>game voterDoc. db_get (db_games db) g = Some game
          \<and> (g_phase game = Day \<or> g_phase game = Voting)
          \<and> db_get (db_players db) v = Some voterDoc
          \<and> pd_gameId voterDoc = g \<and> pd_isAlive voterDoc)
        \<and> (case tgt of
              None \<Rightarrow> True
            | Some x \<Rightarrow> (\<exists>d. db_get (db_players db) x = Some d \<and> pd_gameId d = g
                            \<and> pd_isAlive d)) \<longrightarrow>
        \<not> isl (snd (castVote db g v tgt now)))
   \<and> (isl (snd (castVote db g v tgt now)) \<longrightarrow> fst (castVote db g v tgt now) = db)"
proof -
  have a: "valid (canVote voter target s)
     = (isAlive voter \<and> phase s = Voting \<and> \<not> hasVotedThisRound voter
        \<and> (case target of None \<Rightarrow> True | Some t \<Rightarrow> isAlive t))"
    by (simp add: canVote_def split: option.splits)
  have b: "valid (canVote voter target s) = (reason (canVote voter target s) = None)"
    by (simp add: canVote_def)
  have c: "(\<not> isl (snd (castVote db g v tgt now)))
     = (\<exists>game voterDoc. db_get (db_games db) g = Some game
          \<and> (g_phase game = Day \<or> g_phase game = Voting)
          \<and> db_get (db_players db) v = Some voterDoc
          \<and> pd_gameId voterDoc = g \<and> pd_isAlive voterDoc)"
    by (auto simp add: castVote_def Let_def split: option.splits)
  have d: "isl (snd (castVote db g v tgt now)) \<longrightarrow> fst (castVote db g v tgt now) = db"
    by (auto simp add: castVote_def Let_def split: option.splits if_splits)
  show ?thesis using a b c d by blast
qed

text \<open>
  A vote for an alive player is accepted by \<open>castVote\<close> during the day; during the night
  the same call is rejected and leaves the store as it was.
\<close>

theorem vote_submission_rules_witness:
  "valid (canVote freshVoter None (exampleDay\<lparr>phase := Voting\<rparr>))
   \<and> \<not> isl (snd (castVote (exampleDb Day) 0 1 (Some 0) 5))
   \<and> isl (snd (castVote (exampleDb Night) 0 1 (Some 0) 5))
   \<and> fst (castVote (exampleDb Night) 0 1 (Some 0) 5) = exampleDb Night"
proof -
  have v: "valid (canVote freshVoter None (exampleDay\<lparr>phase := Voting\<rparr>))"
    by (simp add: canVote_def freshVoter_def examplePlayer_def)
  have day: "\<exists>game voterDoc. db_get (db_games (exampleDb Day)) 0 = Some game
          \<and> (g_phase game = Day \<or> g_phase game = Voting)
          \<and> db_get (db_players (exampleDb Day)) 1 = Some voterDoc
          \<and> pd_gameId voterDoc = 0 \<and> pd_isAlive voterDoc"
    by (simp add: exampleDb_def exampleDoc_def db_get_def)
  have tg: "case Some (0::nat) of
              None \<Rightarrow> True
            | Some x \<Rightarrow> (\<exists>d. db_get (db_players (exampleDb Day)) x = Some d \<and> pd_gameId d = 0
                            \<and> pd_isAlive d)"
    by (simp add: exampleDb_def exampleDoc_def db_get_def)
  have night: "\<not> (\<exists>game voterDoc. db_get (db_games (exampleDb Night)) 0 = Some game
          \<and> (g_phase game = Day \<or> g_phase game = Voting)
          \<and> db_get (db_players (exampleDb Night)) 1 = Some voterDoc
          \<and> pd_gameId voterDoc = 0 \<and> pd_isAlive voterDoc)"
    by (simp add: exampleDb_def db_get_def)
  note D = vote_submission_rules [where db = "exampleDb Day" and g = 0 and v = 1
      and tgt = "Some 0" and now = 5]
  note N = vote_submission_rules [where db = "exampleDb Night" and g = 0 and v = 1
      and tgt = "Some 0" and now = 5]
  have d: "\<not> isl (snd (castVote (exampleDb Day) 0 1 (Some 0) 5))"
    using D day tg by blast
  have n: "isl (snd (castVote (exampleDb Night) 0 1 (Some 0) 5))"
    using N night by blast
  have u: "fst (castVote (exampleDb Night) 0 1 (Some 0) 5) = exampleDb Night"
    using N n by blast
  show ?thesis using v d n u by blast
qed

section \<open>The fallback decision policy\<close>

lemma floor_index_bounds:
  assumes "0 \<le> r" and "r < 1" and "0 < n"
  shows "0 \<le> \<lfloor>r * real n\<rfloor> \<and> \<lfloor>r * real n\<rfloor> < int n"
proof -
  have "0 \<le> r * real n" using assms by simp
  moreover have "r * real n < real n" using assms by simp
  ultimately show ?thesis by (simp add: floor_less_iff)
qed

lemma pick_member:
  assumes "0 \<le> idx" and "idx < int (length xs)"
  shows "\<exists>d t. pick xs idx why = Inr d \<and> targetId d = Some t \<and> t \<in> c_id ` set xs"
  using assms by (simp add: pick_def)

lemma selectByDifficulty_member:
  assumes "targets \<noteq> []" and "0 \<le> r" and "r < 1"
  shows "\<exists>d t. selectByDifficulty targets options r = Inr d \<and> targetId d = Some t
           \<and> t \<in> c_id ` set targets"
proof (cases "difficulty options")
  case Easy
  have "0 < length targets" using assms(1) by simp
  from floor_index_bounds [OF assms(2,3) this] pick_member
  show ?thesis using Easy by (simp add: selectByDifficulty_def)
next
  case Medium
  define pool where "pool = take (max (length targets div 2) 1) targets"
  have len: "0 < length pool" using assms(1) by (simp add: pool_def)
  have sub: "set pool \<subseteq> set targets" by (simp add: pool_def set_take_subset)
  obtain d t where "pick pool \<lfloor>r * real (length pool)\<rfloor>
        ''Semi-strategic selection (medium difficulty fallback)'' = Inr d"
      "targetId d = Some t" "t \<in> c_id ` set pool"
    using floor_index_bounds [OF assms(2,3) len] pick_member by blast
  then show ?thesis using Medium sub
    by (auto simp add: selectByDifficulty_def Let_def pool_def)
next
  case Hard
  define un where "un = (case investigationResults options of None \<Rightarrow> []
      | Some rs \<Rightarrow> if rs \<noteq> [] then filter (\<lambda>t. c_id t \<notin> set (map ir_playerId rs)) targets else [])"
  have sub: "set un \<subseteq> set targets"
    by (auto simp add: un_def split: option.splits)
  show ?thesis
  proof (cases "nonEmpty (investigationResults options) \<and> un \<noteq> []")
    case True
    then have "0 < int (length un)" by simp
    from pick_member [OF _ this, of "''Strategic: targeting uninvestigated player (hard fallback)''"]
    obtain d t where "pick un 0 ''Strategic: targeting uninvestigated player (hard fallback)'' = Inr d"
      "targetId d = Some t" "t \<in> c_id ` set un" by auto
    then show ?thesis using Hard True sub
      by (auto simp add: selectByDifficulty_def Let_def un_def [symmetric])
  next
    case False
    have "0 < int (length targets)" using assms(1) by simp
    from pick_member [OF _ this, of "''Strategic selection (hard difficulty fallback)''"]
    obtain d t where "pick targets 0 ''Strategic selection (hard difficulty fallback)'' = Inr d"
      "targetId d = Some t" "t \<in> c_id ` set targets" by auto
    then show ?thesis using Hard False
      by (auto simp add: selectByDifficulty_def Let_def un_def [symmetric])
  qed
qed

text \<open>
  C9 as stated (the returned target is always a member of the supplied candidate list
  when that list is not empty) fails for a doctor at night: when the draw falls below
  the self-protection chance the policy returns \<open>selfId\<close>, which the caller keeps out of
  the candidate list.
\<close>

theorem fallbackDecision_self_counterexample:
  "soleCandidate \<noteq> [] \<and> (0::real) \<le> 0 \<and> (0::real) < 1
   \<and> fallbackDecision ''doctor'' ''night'' soleCandidate doctorOptions 0 0
       = Inr \<lparr>targetId = Some ''me'', reasoning = ''Self-protection for safety''\<rparr>
   \<and> ''me'' \<notin> c_id ` set soleCandidate"
  by (simp add: fallbackDecision_def soleCandidate_def doctorOptions_def selfChance_def
      truthy_def nonEmpty_def Let_def)

text \<open>
  C9, amended. For every role, phase, candidate list, options and every outcome of the
  random draws, the fallback policy returns a decision: for an empty candidate list a
  null target with the reason "No valid targets available"; otherwise a target that is a
  member of the candidate list, or, only for role doctor in phase night with a non-empty
  \<open>selfId\<close> and a first draw below the self-protection chance, that \<open>selfId\<close>.
\<close>

theorem fallbackDecision_total:
  assumes "0 \<le> r2" and "r2 < 1"
  shows "\<exists>d. fallbackDecision rl ph candidates options r1 r2 = Inr d
          \<and> (candidates = [] \<longrightarrow>
                targetId d = None \<and> reasoning d = ''No valid targets available'')
          \<and> (candidates \<noteq> [] \<longrightarrow>
                (\<exists>t. targetId d = Some t
                   \<and> (t \<in> c_id ` set candidates
                      \<or> (rl = ''doctor'' \<and> ph = ''night'' \<and> selfId options = Some t
                          \<and> t \<noteq> [] \<and> r1 < selfChance (difficulty options)))))"
proof (cases "candidates = []")
  case True
  then show ?thesis by (simp add: fallbackDecision_def)
next
  case False
  define filtered where "filtered = (case knownWerewolves options of None \<Rightarrow> []
      | Some ws \<Rightarrow> filter (\<lambda>c. c_id c \<notin> set ws) candidates)"
  define targets where "targets = (if rl = ''werewolf'' \<and> nonEmpty (knownWerewolves options)
      \<and> filtered \<noteq> [] then filtered else candidates)"
  define wolfTarget where "wolfTarget =
     (if (ph = ''voting'' \<or> ph = ''day'') \<and> nonEmpty (investigationResults options)
      then (case investigationResults options of None \<Rightarrow> None
            | Some rs \<Rightarrow> (case find isWerewolf rs of None \<Rightarrow> None
                 | Some knownWolf \<Rightarrow> find (\<lambda>t. c_id t = ir_playerId knownWolf) targets))
      else None)"
  have fsub: "set filtered \<subseteq> set candidates"
    by (auto simp add: filtered_def split: option.splits)
  have tsub: "set targets \<subseteq> set candidates" using fsub by (simp add: targets_def)
  have tne: "targets \<noteq> []" using False by (simp add: targets_def)
  have unfold: "fallbackDecision rl ph candidates options r1 r2 =
     (case wolfTarget of
        Some w \<Rightarrow> Inr \<lparr>targetId = Some (c_id w),
                     reasoning = ''Targeting a confirmed werewolf from investigation''\<rparr>
      | None \<Rightarrow>
          if rl = ''doctor'' \<and> ph = ''night'' \<and> truthy (selfId options)
             \<and> r1 < selfChance (difficulty options)
          then Inr \<lparr>targetId = selfId options, reasoning = ''Self-protection for safety''\<rparr>
          else selectByDifficulty targets options r2)"
    unfolding wolfTarget_def targets_def filtered_def fallbackDecision_def Let_def
    using False by simp
  show ?thesis
  proof (cases wolfTarget)
    case (Some w)
    then have "w \<in> set targets"
      by (auto simp add: wolfTarget_def find_Some_iff split: if_splits option.splits)
    then show ?thesis using Some unfold False tsub by auto
  next
    case None
    show ?thesis
    proof (cases "rl = ''doctor'' \<and> ph = ''night'' \<and> truthy (selfId options)
             \<and> r1 < selfChance (difficulty options)")
      case True
      then obtain t where "selfId options = Some t" "t \<noteq> []"
        by (auto simp add: truthy_def split: option.splits)
      then show ?thesis using None unfold True False by auto
    next
      case no_self: False
      obtain d t where "selectByDifficulty targets options r2 = Inr d" "targetId d = Some t"
          "t \<in> c_id ` set targets"
        using selectByDifficulty_member [OF tne assms] by blast
      then show ?thesis using None unfold no_self False tsub by auto
    qed
  qed
qed

theorem fallbackDecision_total_witness:
  "(0::real) \<le> 1 / 2 \<and> (1 / 2 :: real) < 1 \<and> soleCandidate \<noteq> []
   \<and> (\<exists>d. fallbackDecision ''doctor'' ''night'' soleCandidate doctorOptions 0 (1 / 2) = Inr d
         \<and> targetId d = Some ''me'')
   \<and> (\<exists>d. fallbackDecision ''doctor'' ''night'' soleCandidate doctorOptions (1 / 2) (1 / 2) = Inr d
         \<and> targetId d = Some ''a'')
   \<and> (\<exists>d. fallbackDecision ''seer'' ''day'' [] doctorOptions (1 / 2) (1 / 2) = Inr d
         \<and> targetId d = None)"
proof -
  have h1: "(0::real) \<le> 1 / 2" and h2: "(1 / 2 :: real) < 1" by simp_all
  have ne: "soleCandidate \<noteq> []" by (simp add: soleCandidate_def)
  have sc: "selfChance (difficulty doctorOptions) = 1 / 10"
    by (simp add: doctorOptions_def selfChance_def)
  have ids: "c_id ` set soleCandidate = {''a''}" by (simp add: soleCandidate_def)
  have sid: "selfId doctorOptions = Some ''me''" by (simp add: doctorOptions_def)
  from fallbackDecision_total [OF h1 h2, of "''doctor''" "''night''" soleCandidate doctorOptions 0]
  have a: "\<exists>d. fallbackDecision ''doctor'' ''night'' soleCandidate doctorOptions 0 (1 / 2) = Inr d
         \<and> targetId d = Some ''me''"
    using ne by (auto simp add: ids sid sc fallbackDecision_def Let_def truthy_def nonEmpty_def)
  from fallbackDecision_total [OF h1 h2, of "''doctor''" "''night''" soleCandidate doctorOptions "1 / 2"]
  have b: "\<exists>d. fallbackDecision ''doctor'' ''night'' soleCandidate doctorOptions (1 / 2) (1 / 2) = Inr d
         \<and> targetId d = Some ''a''"
    using ne by (auto simp add: ids sid sc)
  from fallbackDecision_total [OF h1 h2, of "''seer''" "''day''" "[]" doctorOptions "1 / 2"]
  have c: "\<exists>d. fallbackDecision ''seer'' ''day'' [] doctorOptions (1 / 2) (1 / 2) = Inr d
         \<and> targetId d = None"
    by auto
  show ?thesis using h1 h2 ne a b c by blast
qed

section \<open>Counting with property lists\<close>

lemma set_Object_entries: "set (Object_entries r) = set r"
  by (auto simp add: Object_entries_def)

lemma bump_keys_subset: "fst ` set (bump r k) \<subseteq> insert k (fst ` set r)"
  by (induction r k rule: bump.induct) auto

lemma keys_bump:
  "map fst (bump r k)
     = (if k \<in> fst ` set r \<or> k = ''__proto__'' then map fst r else map fst r @ [k])"
  by (induction r k rule: bump.induct) auto

lemma map_of_bump:
  "map_of (bump r k) k' =
     (if k' = k
      then (case map_of r k of
              Some v \<Rightarrow> Some (plusOne v)
            | None \<Rightarrow> if k = ''__proto__'' then None
                      else if k \<in> set prototypeFunctions then Some Str else Some (Num 1))
      else map_of r k')"
  by (induction r k rule: bump.induct) auto

lemma values_bump:
  assumes "\<forall>(k, v) \<in> set r. if ordinaryId k then (\<exists>n. 0 < n \<and> v = Num n) else v = Str"
  shows "\<forall>(k', v) \<in> set (bump r k). if ordinaryId k' then (\<exists>n. 0 < n \<and> v = Num n) else v = Str"
  using assms
  by (induction r k rule: bump.induct) (auto simp add: ordinaryId_def split: if_splits)

lemma wellCounted_bump: "wellCounted r \<Longrightarrow> wellCounted (bump r k)"
  using values_bump [of r k] by (simp add: wellCounted_def keys_bump)

lemma cnt_bump:
  assumes "wellCounted r"
  shows "cnt (bump r k) k' = cnt r k' + (if k' = k \<and> ordinaryId k then 1 else 0)"
proof (cases "k' = k")
  case False
  then show ?thesis by (simp add: cnt_def map_of_bump)
next
  case True
  show ?thesis
  proof (cases "map_of r k")
    case None
    then show ?thesis using True
      by (simp add: cnt_def map_of_bump ordinaryId_def)
  next
    case (Some v)
    then have "(k, v) \<in> set r" by (rule map_of_SomeD)
    then have "if ordinaryId k then (\<exists>n. 0 < n \<and> v = Num n) else v = Str"
      using assms by (auto simp add: wellCounted_def)
    then show ?thesis using True Some
      by (auto simp add: cnt_def map_of_bump split: if_splits)
  qed
qed

lemma countVotes_facts:
  assumes "wellCounted res"
  shows "wellCounted (fst (countVotes vs (res, a)))
       \<and> (\<forall>k. cnt (fst (countVotes vs (res, a))) k
               = cnt res k
                 + (if ordinaryId k then length (filter (\<lambda>v. v_targetId v = Some k) vs) else 0))
       \<and> snd (countVotes vs (res, a)) = a + length (filter (\<lambda>v. v_targetId v = None) vs)"
  using assms
proof (induction vs arbitrary: res a)
  case Nil
  then show ?case by simp
next
  case (Cons v vs)
  show ?case
  proof (cases "v_targetId v")
    case None
    then show ?thesis using Cons.IH [OF Cons.prems, of "a + 1"] by simp
  next
    case (Some t)
    have w: "wellCounted (bump res t)" using Cons.prems by (rule wellCounted_bump)
    show ?thesis using Cons.IH [OF w, of a] Some
      by (simp add: cnt_bump [OF Cons.prems])
  qed
qed

lemma entry_iff_cnt:
  assumes "wellCounted r"
  shows "((k, Num n) \<in> set r) = (cnt r k = n \<and> 0 < n)"
proof
  assume m: "(k, Num n) \<in> set r"
  then have "map_of r k = Some (Num n)" using assms by (simp add: wellCounted_def)
  moreover have "0 < n" using m assms by (auto simp add: wellCounted_def split: if_splits)
  ultimately show "cnt r k = n \<and> 0 < n" by (simp add: cnt_def)
next
  assume a: "cnt r k = n \<and> 0 < n"
  then have "map_of r k = Some (Num n)"
    by (auto simp add: cnt_def split: option.splits jsvalue.splits)
  then show "(k, Num n) \<in> set r" by (rule map_of_SomeD)
qed

lemma distinct_Object_entries:
  assumes "distinct (map fst r)"
  shows "distinct (map fst (Object_entries r))"
proof -
  have d: "distinct r" and i: "inj_on fst (set r)" using assms by (simp_all add: distinct_map)
  have "distinct (Object_entries r)" using d by (auto simp add: Object_entries_def)
  then show ?thesis using i by (simp add: distinct_map set_Object_entries)
qed

lemma numbers_snoc:
  "numbers (pre @ [(k, Num n)]) = insert (k, n) (numbers pre)"
  "numbers (pre @ [(k, Str)]) = numbers pre"
  by (auto simp add: numbers_def)

lemma numbers_fresh: "k \<notin> fst ` set pre \<Longrightarrow> (k, n) \<notin> numbers pre"
  by (force simp add: numbers_def)

lemma leaderInv_step:
  assumes "leaderInv pre (m, l, tie)" and "k \<notin> fst ` set pre" and "0 < n"
  shows "leaderInv (pre @ [(k, Num n)])
           (if n > m then (n, Some k, False)
            else if n = m then (m, l, True) else (m, l, tie))"
proof (cases l)
  case None
  then show ?thesis using assms by (auto simp add: leaderInv_def numbers_snoc)
next
  case (Some k0)
  then have in0: "(k0, m) \<in> numbers pre" and le: "\<forall>(k, n) \<in> numbers pre. n \<le> m"
    and tie: "tie = (\<exists>k'. k' \<noteq> k0 \<and> (k', m) \<in> numbers pre)"
    using assms(1) by (auto simp add: leaderInv_def)
  have fresh: "\<And>n'. (k, n') \<notin> numbers pre" using assms(2) by (rule numbers_fresh)
  have ne: "k0 \<noteq> k" using in0 fresh by auto
  consider "n > m" | "n = m" | "n < m" by linarith
  then show ?thesis
  proof cases
    case 1
    then have "\<not> (\<exists>k'. k' \<noteq> k \<and> (k', n) \<in> numbers pre)" using le by fastforce
    then show ?thesis using 1 le by (auto simp add: leaderInv_def numbers_snoc)
  next
    case 2
    then show ?thesis using Some in0 le ne by (auto simp add: leaderInv_def numbers_snoc)
  next
    case 3
    then show ?thesis using Some in0 le tie by (auto simp add: leaderInv_def numbers_snoc)
  qed
qed

lemma leaderInv_skip: "leaderInv pre acc \<Longrightarrow> leaderInv (pre @ [(k, Str)]) acc"
  unfolding leaderInv_def numbers_snoc by simp

lemma findLeader_inv:
  assumes "leaderInv pre acc" and "distinct (map fst (pre @ es))"
    and "\<forall>(k, n) \<in> numbers es. 0 < n"
  shows "leaderInv (pre @ es) (findLeader es acc)"
  using assms
proof (induction es arbitrary: pre acc)
  case Nil
  then show ?case by simp
next
  case (Cons e es)
  obtain k v where e: "e = (k, v)" by (cases e)
  obtain m l tie where acc: "acc = (m, l, tie)" by (cases acc)
  have d: "distinct (map fst ((pre @ [(k, v)]) @ es))" using Cons.prems(2) e by simp
  have p: "\<forall>(k, n) \<in> numbers es. 0 < n" using Cons.prems(3) by (auto simp add: numbers_def)
  show ?case
  proof (cases v)
    case Str
    have inv: "leaderInv (pre @ [(k, v)]) acc" using Cons.prems(1) Str by (simp add: leaderInv_skip)
    have "findLeader (e # es) acc = findLeader es acc" by (simp add: e acc Str)
    then show ?thesis using Cons.IH [OF inv d p] e by simp
  next
    case (Num n)
    define acc' where "acc' = (if n > m then (n, Some k, False)
            else if n = m then (m, l, True) else (m, l, tie))"
    have "k \<notin> fst ` set pre" using Cons.prems(2) e by auto
    moreover have "0 < n" using Cons.prems(3) e Num by (auto simp add: numbers_def)
    ultimately have inv: "leaderInv (pre @ [(k, v)]) acc'"
      using leaderInv_step Cons.prems(1) acc acc'_def Num by simp
    have "findLeader (e # es) acc = findLeader es acc'"
      by (simp add: e acc acc'_def Num)
    then show ?thesis using Cons.IH [OF inv d p] e by simp
  qed
qed

lemma tallyVotes_counts:
  "results (tallyVotes s) = fst (countVotes (currentRoundVotes s) ([], 0))"
  "abstentions (tallyVotes s) = snd (countVotes (currentRoundVotes s) ([], 0))"
  by (simp_all add: tallyVotes_def split: prod.splits)

lemma wellCounted_Nil: "wellCounted []"
  by (simp add: wellCounted_def)

lemma tally_entries:
  fixes s :: "'a WerewolfGameState_scheme"
  defines "es \<equiv> Object_entries (fst (countVotes (currentRoundVotes s) ([], 0)))"
  shows "distinct (map fst es)" and "\<forall>(k, n) \<in> numbers es. 0 < n"
    and "((k, n) \<in> numbers es) = (ordinaryVotes s k = n \<and> 0 < n)"
proof -
  let ?r = "fst (countVotes (currentRoundVotes s) ([], 0))"
  have w: "wellCounted ?r"
    and c: "\<forall>k. cnt ?r k = cnt [] k
        + (if ordinaryId k
           then length (filter (\<lambda>v. v_targetId v = Some k) (currentRoundVotes s)) else 0)"
    using countVotes_facts [OF wellCounted_Nil, of "currentRoundVotes s" 0] by simp_all
  show "distinct (map fst es)" using w by (simp add: es_def distinct_Object_entries wellCounted_def)
  have "cnt ?r k = ordinaryVotes s k" using c by (simp add: votesFor_def ordinaryVotes_def cnt_def)
  then show m: "((k, n) \<in> numbers es) = (ordinaryVotes s k = n \<and> 0 < n)"
    using entry_iff_cnt [OF w, of k n] by (simp add: es_def set_Object_entries numbers_def)
  show "\<forall>(k, n) \<in> numbers es. 0 < n"
    using entry_iff_cnt [OF w] by (auto simp add: es_def set_Object_entries numbers_def)
qed

lemma tally_leaderInv:
  "leaderInv (Object_entries (fst (countVotes (currentRoundVotes s) ([], 0))))
     (findLeader (Object_entries (fst (countVotes (currentRoundVotes s) ([], 0)))) (0, None, False))"
proof -
  have "leaderInv [] (0, None, False)" by (simp add: leaderInv_def numbers_def)
  from findLeader_inv [OF this, of "Object_entries (fst (countVotes (currentRoundVotes s) ([], 0)))"]
  show ?thesis using tally_entries(1,2) [of s] by simp
qed

lemma tallyVotes_fields:
  "leader (tallyVotes s)
     = fst (snd (findLeader (Object_entries (fst (countVotes (currentRoundVotes s) ([], 0))))
         (0, None, False)))"
  "isTie (tallyVotes s)
     = snd (snd (findLeader (Object_entries (fst (countVotes (currentRoundVotes s) ([], 0))))
         (0, None, False)))"
  by (simp_all add: tallyVotes_def split: prod.splits)

lemma tally_strict_leader:
  assumes "\<forall>t'. t' \<noteq> t \<longrightarrow> ordinaryVotes s t' < ordinaryVotes s t"
  shows "leader (tallyVotes s) = Some t \<and> \<not> isTie (tallyVotes s)"
proof -
  let ?es = "Object_entries (fst (countVotes (currentRoundVotes s) ([], 0)))"
  obtain m l tie where r: "findLeader ?es (0, None, False) = (m, l, tie)"
    by (cases "findLeader ?es (0, None, False)")
  have inv: "leaderInv ?es (m, l, tie)" using tally_leaderInv [of s] r by simp
  have mem: "\<And>k n. ((k, n) \<in> numbers ?es) = (ordinaryVotes s k = n \<and> 0 < n)"
    using tally_entries(3) [of _ _ s] by simp
  obtain x :: PlayerId where "x \<noteq> t" by (metis list.simps(3) not_Cons_self2)
  then have pos: "0 < ordinaryVotes s t" using assms by fastforce
  then have tin: "(t, ordinaryVotes s t) \<in> numbers ?es" using mem by simp
  then obtain k where l: "l = Some k" and kin: "(k, m) \<in> numbers ?es"
    and tie: "tie = (\<exists>k'. k' \<noteq> k \<and> (k', m) \<in> numbers ?es)"
    and le: "\<forall>(k, n) \<in> numbers ?es. n \<le> m"
    using inv by (cases l) (auto simp add: leaderInv_def)
  have "ordinaryVotes s t \<le> m" using le tin by auto
  moreover have km: "ordinaryVotes s k = m" using kin mem by simp
  ultimately have kt: "k = t" using assms by (metis not_less)
  then have mt: "m = ordinaryVotes s t" using km by simp
  have "\<not> tie" using tie kt mt mem assms by (metis less_irrefl)
  then show ?thesis using l kt r by (simp add: tallyVotes_fields)
qed

lemma tally_no_strict_leader:
  assumes "\<not> (\<exists>t. \<forall>t'. t' \<noteq> t \<longrightarrow> ordinaryVotes s t' < ordinaryVotes s t)"
  shows "isTie (tallyVotes s) \<or> leader (tallyVotes s) = None"
proof (rule ccontr)
  assume c: "\<not> (isTie (tallyVotes s) \<or> leader (tallyVotes s) = None)"
  let ?es = "Object_entries (fst (countVotes (currentRoundVotes s) ([], 0)))"
  obtain m l tie where r: "findLeader ?es (0, None, False) = (m, l, tie)"
    by (cases "findLeader ?es (0, None, False)")
  have inv: "leaderInv ?es (m, l, tie)" using tally_leaderInv [of s] r by simp
  have mem: "\<And>k n. ((k, n) \<in> numbers ?es) = (ordinaryVotes s k = n \<and> 0 < n)"
    using tally_entries(3) [of _ _ s] by simp
  from c r obtain k where l: "l = Some k" and nt: "\<not> tie"
    by (auto simp add: tallyVotes_fields)
  then have kin: "(k, m) \<in> numbers ?es"
    and tie: "\<not> (\<exists>k'. k' \<noteq> k \<and> (k', m) \<in> numbers ?es)"
    and le: "\<forall>(k, n) \<in> numbers ?es. n \<le> m"
    using inv by (auto simp add: leaderInv_def)
  have km: "ordinaryVotes s k = m" and mpos: "0 < m" using kin mem by simp_all
  have "ordinaryVotes s t' < ordinaryVotes s k" if "t' \<noteq> k" for t'
  proof (cases "ordinaryVotes s t' = 0")
    case True
    then show ?thesis using km mpos by simp
  next
    case False
    then have "(t', ordinaryVotes s t') \<in> numbers ?es" using mem by simp
    then have "ordinaryVotes s t' \<le> m" "ordinaryVotes s t' \<noteq> m" using le tie that by auto
    then show ?thesis using km by simp
  qed
  then show False using assms by blast
qed

lemma tally_entry_count:
  assumes "(t, Num n) \<in> set (results (tallyVotes s))"
  shows "n = votesFor s t"
proof -
  have "(t, n) \<in> numbers (Object_entries (fst (countVotes (currentRoundVotes s) ([], 0))))"
    using assms by (simp add: tallyVotes_counts set_Object_entries numbers_def)
  then have "ordinaryVotes s t = n" and "0 < n" using tally_entries(3) [of t n s] by simp_all
  then show ?thesis by (auto simp add: ordinaryVotes_def split: if_splits)
qed

lemma tally_abstentions:
  "abstentions (tallyVotes s) = length (filter (\<lambda>v. v_targetId v = None) (currentRoundVotes s))"
  using countVotes_facts [OF wellCounted_Nil, of "currentRoundVotes s" 0]
  by (simp add: tallyVotes_counts)

section \<open>A protected kill target\<close>

text \<open>
  When the kill target that \<open>getMajorityTarget\<close> computes equals the target of the first
  protect action of the round, nobody dies and that target is reported saved; on the
  server the same holds for any protect action of the round. When all kill actions of
  the round name one ordinary id and the protect action names it too, that id is the
  computed kill target and is reported saved.
\<close>

lemma countTargets_keys_nonempty:
  "[] \<notin> fst ` set vs \<Longrightarrow> [] \<notin> fst ` set (countTargets acts vs)"
proof (induction acts vs rule: countTargets.induct)
  case (1 vs)
  then show ?case by simp
next
  case (2 action as vs)
  show ?case
  proof (cases "a_targetId action")
    case None
    then show ?thesis using "2.IH"(1) "2.prems" by simp
  next
    case (Some t)
    show ?thesis
    proof (cases "t = []")
      case True
      then show ?thesis using "2.IH"(3) "2.prems" Some by simp
    next
      case False
      have "[] \<notin> fst ` set (bump vs t)"
        using bump_keys_subset [of vs t] "2.prems" False by blast
      then show ?thesis using "2.IH"(2) [OF Some False] Some False by simp
    qed
  qed
qed

lemma findMajority_result:
  "snd (findMajority es (m, t)) = t \<or> snd (findMajority es (m, t)) \<in> Some ` fst ` set es"
  by (induction es "(m, t)" arbitrary: m t rule: findMajority.induct) force+

lemma getMajorityTarget_truthy:
  "getMajorityTarget actions = Some k \<Longrightarrow> k \<noteq> []"
proof -
  assume a: "getMajorityTarget actions = Some k"
  have ne: "[] \<notin> fst ` set (Object_entries (countTargets actions []))"
    using countTargets_keys_nonempty [of "[]" actions] by (simp add: set_Object_entries)
  from a have "snd (findMajority (Object_entries (countTargets actions [])) (0, None)) = Some k"
    by (simp add: getMajorityTarget_def split: if_splits)
  with findMajority_result [of "Object_entries (countTargets actions [])" 0 None]
  have "Some k \<in> Some ` fst ` set (Object_entries (countTargets actions []))" by auto
  then have "k \<in> fst ` set (Object_entries (countTargets actions []))" by auto
  with ne show ?thesis by metis
qed

lemma protectSet_member:
  "(t \<in> set (protectSet acts))
     = (\<exists>a \<in> set acts. ad_actionType a = Protect \<and> ad_targetId a = Some t)"
  by (auto simp add: protectSet_def split: option.splits)

lemma protected_target_saved_logic:
  fixes s :: "'a WerewolfGameState_scheme"
  defines "current \<equiv> filter (\<lambda>a. a_round a = round_no s) (nightActions s)"
  defines "killTarget \<equiv> getMajorityTarget (filter (\<lambda>a. actionType a = Kill) current)"
  defines "protectedTarget \<equiv>
     (case find (\<lambda>a. actionType a = Protect) current of None \<Rightarrow> None | Some a \<Rightarrow> a_targetId a)"
  assumes eq: "killTarget = protectedTarget"
  shows "players (resolveNightActions s now) = players s
       \<and> killedTonight (resolveNightActions s now) = None
       \<and> savedTonight (resolveNightActions s now) = killTarget"
proof -
  have unfold: "resolveNightActions s now =
     (case killTarget of
        None \<Rightarrow> s\<lparr>killedTonight := None, savedTonight := None, updatedAt := now\<rparr>
      | Some k \<Rightarrow>
          if \<not> truthy killTarget
            then s\<lparr>killedTonight := None, savedTonight := None, updatedAt := now\<rparr>
          else if truthy killTarget \<and> killTarget \<noteq> protectedTarget
            then s\<lparr>players := eliminate k (players s), killedTonight := Some k,
                   savedTonight := None, updatedAt := now\<rparr>
          else if protectedTarget = killTarget
            then s\<lparr>killedTonight := None, savedTonight := Some k, updatedAt := now\<rparr>
          else s\<lparr>killedTonight := None, savedTonight := None, updatedAt := now\<rparr>)"
    unfolding resolveNightActions_def Let_def killTarget_def protectedTarget_def current_def
    by (rule refl)
  show ?thesis
  proof (cases killTarget)
    case None
    then show ?thesis by (simp add: unfold)
  next
    case (Some k)
    then have "k \<noteq> []" using getMajorityTarget_truthy by (simp add: killTarget_def)
    then have "truthy killTarget" using Some by (simp add: truthy_def)
    then show ?thesis using Some eq by (simp add: unfold)
  qed
qed

lemma protected_target_saved_server:
  assumes "db_get (db_games db) g = Some game"
    and "killCandidate (roundActions db g (g_round game)) = Some t"
    and "\<exists>a \<in> set (roundActions db g (g_round game)).
           ad_actionType a = Protect \<and> ad_targetId a = Some t"
  shows "db_players (fst (resolveNightActions_server db g now)) = db_players db
       \<and> (\<exists>res. snd (resolveNightActions_server db g now) = Inr res
             \<and> eliminatedPlayerId res = None \<and> t \<in> set (protectedTargets res))"
proof -
  have "t \<in> set (protectSet (roundActions db g (g_round game)))"
    using assms(3) by (simp add: protectSet_member)
  then show ?thesis using assms(1,2)
    by (simp add: resolveNightActions_server_def Let_def)
qed

lemma countTargets_sole:
  assumes "\<forall>a \<in> set acts. a_targetId a = Some t" and "t \<noteq> []"
  shows "countTargets acts [(t, Num n)] = [(t, Num (n + length acts))]"
  using assms by (induction acts arbitrary: n) simp_all

lemma Object_entries_single: "Object_entries [e] = [e]"
  by (simp add: Object_entries_def)

lemma getMajorityTarget_sole:
  assumes "acts \<noteq> []" and "\<forall>a \<in> set acts. a_targetId a = Some t" and "t \<noteq> []"
    and "ordinaryId t"
  shows "getMajorityTarget acts = Some t"
proof -
  obtain a as where acts: "acts = a # as" using assms(1) by (cases acts) auto
  have b: "bump [] t = [(t, Num 1)]" using assms(4) by (simp add: ordinaryId_def)
  have "countTargets acts [] = countTargets as [(t, Num 1)]"
    using assms(2,3) acts b by simp
  also have "\<dots> = [(t, Num (1 + length as))]"
    using assms(2,3) acts by (simp add: countTargets_sole)
  finally show ?thesis using acts
    by (simp add: getMajorityTarget_def Object_entries_single)
qed

lemma sole_protected_target_saved:
  fixes s :: "'a WerewolfGameState_scheme"
  defines "current \<equiv> filter (\<lambda>a. a_round a = round_no s) (nightActions s)"
  assumes "filter (\<lambda>a. actionType a = Kill) current \<noteq> []"
    and "\<forall>a \<in> set (filter (\<lambda>a. actionType a = Kill) current). a_targetId a = Some t"
    and "\<exists>p. find (\<lambda>a. actionType a = Protect) current = Some p \<and> a_targetId p = Some t"
    and "t \<noteq> []" and "ordinaryId t"
  shows "players (resolveNightActions s now) = players s
       \<and> killedTonight (resolveNightActions s now) = None
       \<and> savedTonight (resolveNightActions s now) = Some t"
proof -
  have k: "getMajorityTarget (filter (\<lambda>a. actionType a = Kill) current) = Some t"
    using assms(2,3,5,6) by (rule getMajorityTarget_sole)
  have p: "(case find (\<lambda>a. actionType a = Protect) current of
              None \<Rightarrow> None | Some a \<Rightarrow> a_targetId a) = Some t"
    using assms(4) by auto
  show ?thesis
    using protected_target_saved_logic [of s now] k p by (simp add: current_def)
qed


section \<open>Resolving the vote\<close>

text \<open>
  For ordinary ids the vote is resolved as intended: a non-empty id with the strict
  maximum of the votes is eliminated, alone or with the hunter's alive revenge target,
  and without a strict maximum nobody is.
\<close>

lemma find_alive_eliminate:
  assumes "x \<noteq> t"
  shows "(find (\<lambda>p. p_id p = x \<and> isAlive p) (eliminate t ps) = None)
           = (\<not> (\<exists>p \<in> set ps. p_id p = x \<and> isAlive p))"
proof -
  have "(\<exists>p \<in> set (eliminate t ps). p_id p = x \<and> isAlive p)
          = (\<exists>p \<in> set ps. p_id p = x \<and> isAlive p)"
    using assms by (induction ps) (auto simp add: eliminate_def)
  then show ?thesis unfolding find_None_iff by blast
qed

lemma eliminate_alive:
  "map isAlive (eliminate t ps) = map (\<lambda>p. isAlive p \<and> p_id p \<noteq> t) ps"
  and "map p_id (eliminate t ps) = map p_id ps"
  by (simp_all add: eliminate_def)

lemma resolveVoting_ordinary_ids:
  fixes s :: "'a WerewolfGameState_scheme" and h :: "PlayerId option" and now :: int
  defines "r \<equiv> resolveVoting s h now"
  shows "((\<forall>t'. t' \<noteq> t \<longrightarrow> ordinaryVotes s t' < ordinaryVotes s t) \<and> t \<noteq> [] \<longrightarrow>
            (case find (\<lambda>p. p_id p = t) (players s) of
               None \<Rightarrow> players r = players s \<and> eliminatedToday r = None
             | Some e \<Rightarrow>
                 eliminatedToday r = Some t
                 \<and> players r =
                     (case h of
                        None \<Rightarrow> eliminate t (players s)
                      | Some x \<Rightarrow>
                          if role e = Some Hunter \<and> x \<noteq> [] \<and> x \<noteq> t
                             \<and> (\<exists>p \<in> set (players s). p_id p = x \<and> isAlive p)
                          then eliminate x (eliminate t (players s))
                          else eliminate t (players s))))
       \<and> (\<not> (\<exists>t. \<forall>t'. t' \<noteq> t \<longrightarrow> ordinaryVotes s t' < ordinaryVotes s t) \<longrightarrow>
            players r = players s \<and> eliminatedToday r = None)"
proof (rule conjI; rule impI)
  assume a: "(\<forall>t'. t' \<noteq> t \<longrightarrow> ordinaryVotes s t' < ordinaryVotes s t) \<and> t \<noteq> []"
  then have l: "leader (tallyVotes s) = Some t" and nt: "\<not> isTie (tallyVotes s)"
    using tally_strict_leader by blast+
  have tr: "truthy (leader (tallyVotes s))" using l a by (simp add: truthy_def)
  show "case find (\<lambda>p. p_id p = t) (players s) of
               None \<Rightarrow> players r = players s \<and> eliminatedToday r = None
             | Some e \<Rightarrow>
                 eliminatedToday r = Some t
                 \<and> players r =
                     (case h of
                        None \<Rightarrow> eliminate t (players s)
                      | Some x \<Rightarrow>
                          if role e = Some Hunter \<and> x \<noteq> [] \<and> x \<noteq> t
                             \<and> (\<exists>p \<in> set (players s). p_id p = x \<and> isAlive p)
                          then eliminate x (eliminate t (players s))
                          else eliminate t (players s))"
  proof (cases "find (\<lambda>p. p_id p = t) (players s)")
    case None
    then show ?thesis using l nt tr by (simp add: r_def resolveVoting_def Let_def)
  next
    case (Some e)
    show ?thesis
    proof (cases h)
      case None
      then show ?thesis using Some l nt tr
        by (simp add: r_def resolveVoting_def Let_def truthy_def)
    next
      case hx: (Some x)
      show ?thesis
      proof (cases "role e = Some Hunter \<and> x \<noteq> [] \<and> x \<noteq> t")
        case True
        then show ?thesis using Some hx l nt tr find_alive_eliminate [of x t "players s"]
          by (auto simp add: r_def resolveVoting_def Let_def truthy_def split: option.splits)
      next
        case False
        then show ?thesis using Some hx l nt tr
          by (auto simp add: r_def resolveVoting_def Let_def truthy_def)
      qed
    qed
  qed
next
  assume "\<not> (\<exists>t. \<forall>t'. t' \<noteq> t \<longrightarrow> ordinaryVotes s t' < ordinaryVotes s t)"
  then have "isTie (tallyVotes s) \<or> leader (tallyVotes s) = None"
    by (rule tally_no_strict_leader)
  then have "isTie (tallyVotes s) \<or> \<not> truthy (leader (tallyVotes s))"
    by (auto simp add: truthy_def)
  then show "players r = players s \<and> eliminatedToday r = None"
    by (simp add: r_def resolveVoting_def Let_def)
qed

lemmas vote_defs = exampleVoting_def exampleVote_def exampleNight_def exampleRoster_def
  examplePlayer_def votesFor_def currentRoundVotes_def eliminate_def

text \<open>
  C5. Resolving the voting phase eliminates exactly the unique target with the strict
  maximum of the current round's votes; if no votes were cast or two or more targets tie
  for the maximum, no player is eliminated; additionally the hunter's alive revenge
  target is eliminated too. \<open>resolveVoting\<close> does not do so when the leading id names a
  member of \<open>Object.prototype\<close>: with two of three votes for the player \<open>toString\<close> and
  one for \<open>a\<close>, the tally holds a string for \<open>toString\<close>, names \<open>a\<close> the leader without
  a tie, and \<open>a\<close> is eliminated while \<open>toString\<close> stays alive.
\<close>

theorem resolveVoting_toString_not_eliminated:
  "votesFor exampleToStringVoting ''toString'' = 2
   \<and> votesFor exampleToStringVoting ''a'' = 1
   \<and> length (currentRoundVotes exampleToStringVoting) = 3
   \<and> results (tallyVotes exampleToStringVoting) = [(''toString'', Str), (''a'', Num 1)]
   \<and> leader (tallyVotes exampleToStringVoting) = Some ''a''
   \<and> \<not> isTie (tallyVotes exampleToStringVoting)
   \<and> eliminatedToday (resolveVoting exampleToStringVoting None 40) = Some ''a''
   \<and> map (\<lambda>p. (p_id p, isAlive p)) (players (resolveVoting exampleToStringVoting None 40))
       = [(''w'', True), (''a'', False), (''b'', True), (''d'', True), (''h'', True),
          (''toString'', True)]"
  by (simp add: exampleToStringVoting_def vote_defs resolveVoting_def tallyVotes_def
      Object_entries_def isArrayIndex_def isDigit_def prototypeFunctions_def truthy_def Let_def)

section \<open>One vote per voter and round\<close>

lemma find_filter_enumerate_None:
  "(find P (filter Q (enumerate 0 xs)) = None)
     = (\<forall>j < length xs. \<not> (Q (j, xs ! j) \<and> P (j, xs ! j)))"
  by (auto simp add: find_None_iff in_set_enumerate_eq)

lemma find_filter_enumerate_Some:
  assumes "find P (filter Q (enumerate 0 xs)) = Some (i, x)"
  shows "i < length xs \<and> x = xs ! i \<and> Q (i, x) \<and> P (i, x)"
proof -
  from assms obtain k where "k < length (filter Q (enumerate 0 xs))"
      and "P (filter Q (enumerate 0 xs) ! k)" and "(i, x) = filter Q (enumerate 0 xs) ! k"
    unfolding find_Some_iff by blast
  then have "(i, x) \<in> set (filter Q (enumerate 0 xs)) \<and> P (i, x)"
    by (metis nth_mem)
  then show ?thesis by (auto simp add: in_set_enumerate_eq)
qed

lemma castVote_cases:
  assumes "\<not> isl (snd (castVote db g v tgt now))"
  obtains (overwrite) game i where "db_get (db_games db) g = Some game"
      "i < length (db_votes db)" "voteKey (db_votes db ! i) = (g, v, g_round game)"
      "castVote db g v tgt now =
         (db\<lparr>db_votes := (db_votes db)
               [i := (db_votes db ! i)\<lparr>vd_targetId := tgt, vd_timestamp := now\<rparr>]\<rparr>, Inr i)"
  | (insert) game voterDoc where "db_get (db_games db) g = Some game"
      "db_get (db_players db) v = Some voterDoc"
      "\<forall>j < length (db_votes db). voteKey (db_votes db ! j) \<noteq> (g, v, g_round game)"
      "castVote db g v tgt now =
         (db\<lparr>db_votes := db_votes db @
                 [\<lparr>vd_gameId = g, vd_voterId = v, vd_targetId = tgt,
                   vd_round = g_round game, vd_timestamp = now\<rparr>],
              db_players := (db_players db)[v := voterDoc\<lparr>pd_hasVotedThisRound := True\<rparr>]\<rparr>,
          Inr (length (db_votes db)))"
proof -
  from assms obtain game where game: "db_get (db_games db) g = Some game"
    by (cases "db_get (db_games db) g") (auto simp add: castVote_def)
  from assms game have ph: "\<not> (g_phase game \<noteq> Day \<and> g_phase game \<noteq> Voting)"
    by (auto simp add: castVote_def split: if_splits)
  from assms game ph obtain voterDoc where vd: "db_get (db_players db) v = Some voterDoc"
    by (cases "db_get (db_players db) v") (auto simp add: castVote_def)
  from assms game ph vd have ok: "pd_gameId voterDoc = g" "pd_isAlive voterDoc"
    by (auto simp add: castVote_def split: if_splits)
  let ?f = "find (\<lambda>iv. vd_voterId (snd iv) = v)
      (filter (\<lambda>iv. vd_gameId (snd iv) = g \<and> vd_round (snd iv) = g_round game)
         (enumerate 0 (db_votes db)))"
  show thesis
  proof (cases ?f)
    case None
    then have "\<forall>j < length (db_votes db). voteKey (db_votes db ! j) \<noteq> (g, v, g_round game)"
      by (auto simp add: find_filter_enumerate_None voteKey_def)
    moreover have "castVote db g v tgt now =
         (db\<lparr>db_votes := db_votes db @
                 [\<lparr>vd_gameId = g, vd_voterId = v, vd_targetId = tgt,
                   vd_round = g_round game, vd_timestamp = now\<rparr>],
              db_players := (db_players db)[v := voterDoc\<lparr>pd_hasVotedThisRound := True\<rparr>]\<rparr>,
          Inr (length (db_votes db)))"
      using game ph vd ok None by (simp add: castVote_def Let_def)
    ultimately show thesis using game vd insert by blast
  next
    case (Some ix)
    obtain i x where ix: "ix = (i, x)" by (cases ix)
    from find_filter_enumerate_Some [OF Some [unfolded ix]]
    have f: "i < length (db_votes db)" "x = db_votes db ! i" "vd_gameId x = g"
      "vd_round x = g_round game" "vd_voterId x = v" by auto
    then have k: "voteKey (db_votes db ! i) = (g, v, g_round game)" by (simp add: voteKey_def)
    have "castVote db g v tgt now =
         (db\<lparr>db_votes := (db_votes db)
               [i := (db_votes db ! i)\<lparr>vd_targetId := tgt, vd_timestamp := now\<rparr>]\<rparr>, Inr i)"
      using game ph vd ok Some ix f(2) by (simp add: castVote_def Let_def)
    then show thesis using game f(1) k overwrite by blast
  qed
qed

lemma castVote_rejected_store:
  "isl (snd (castVote db g v tgt now)) \<Longrightarrow> fst (castVote db g v tgt now) = db"
  by (auto simp add: castVote_def Let_def split: option.splits if_splits)

lemma voteKey_update [simp]:
  "voteKey (d\<lparr>vd_targetId := tgt, vd_timestamp := now\<rparr>) = voteKey d"
  by (simp add: voteKey_def)

lemma map_voteKey_overwrite:
  "i < length vs \<Longrightarrow>
     map voteKey (vs[i := (vs ! i)\<lparr>vd_targetId := tgt, vd_timestamp := now\<rparr>]) = map voteKey vs"
  by (simp add: map_update list_update_same_conv)

lemma castVote_keeps_distinct:
  assumes "distinct (map voteKey (db_votes db))"
  shows "distinct (map voteKey (db_votes (fst (castVote db g v tgt now))))"
proof (cases "isl (snd (castVote db g v tgt now))")
  case True
  then show ?thesis using assms by (simp add: castVote_rejected_store)
next
  case False
  then show ?thesis
  proof (cases rule: castVote_cases)
    case (overwrite game i)
    then show ?thesis using assms by (simp add: map_voteKey_overwrite)
  next
    case (insert game voterDoc)
    have "(g, v, g_round game) \<notin> set (map voteKey (db_votes db))"
      using insert(3) by (auto simp add: in_set_conv_nth)
    then show ?thesis using assms insert(4) by (simp add: voteKey_def)
  qed
qed

lemma currentRoundVotes_submitVote:
  "currentRoundVotes (submitVote s v tid now)
     = currentRoundVotes s
       @ [\<lparr>voterId = v, v_targetId = tid, v_round = round_no s, v_timestamp = now\<rparr>]"
  by (simp add: currentRoundVotes_def submitVote_def)

lemma submitVote_keeps_voteInv:
  assumes "voteInv s" and "voter \<in> set (players s)" and "valid (canVote voter target s)"
  shows "voteInv (submitVote s (p_id voter) tid now)"
proof -
  have nv: "\<not> hasVotedThisRound voter" using assms(3)
    by (simp add: canVote_def split: if_splits)
  have fresh: "p_id voter \<notin> voterId ` set (currentRoundVotes s)"
    using assms(1,2) nv by (auto simp add: voteInv_def)
  have pl: "players (submitVote s (p_id voter) tid now)
      = map (\<lambda>p. if p_id p = p_id voter then p\<lparr>hasVotedThisRound := True\<rparr> else p) (players s)"
    by (simp add: submitVote_def)
  show ?thesis
    using assms(1) fresh
    by (auto simp add: voteInv_def currentRoundVotes_submitVote pl)
qed

lemma votesFor_distinct_voters:
  assumes "distinct (map voterId (currentRoundVotes s))"
  shows "votesFor s t
     = card {v. \<exists>vote \<in> set (currentRoundVotes s). voterId vote = v \<and> v_targetId vote = Some t}"
proof -
  let ?f = "filter (\<lambda>v. v_targetId v = Some t) (currentRoundVotes s)"
  have "distinct (map voterId ?f)" using assms by (rule distinct_map_filter)
  then have "length ?f = card (set (map voterId ?f))"
    using distinct_card [of "map voterId ?f"] by simp
  moreover have "set (map voterId ?f)
      = {v. \<exists>vote \<in> set (currentRoundVotes s). voterId vote = v \<and> v_targetId vote = Some t}"
    by auto
  ultimately show ?thesis by (simp add: votesFor_def)
qed

lemma abstainers_distinct_voters:
  assumes "distinct (map voterId (currentRoundVotes s))"
  shows "length (filter (\<lambda>v. v_targetId v = None) (currentRoundVotes s))
     = card {v. \<exists>vote \<in> set (currentRoundVotes s). voterId vote = v \<and> v_targetId vote = None}"
proof -
  let ?f = "filter (\<lambda>v. v_targetId v = None) (currentRoundVotes s)"
  have "distinct (map voterId ?f)" using assms by (rule distinct_map_filter)
  then have "length ?f = card (set (map voterId ?f))"
    using distinct_card [of "map voterId ?f"] by simp
  moreover have "set (map voterId ?f)
      = {v. \<exists>vote \<in> set (currentRoundVotes s). voterId vote = v \<and> v_targetId vote = None}"
    by auto
  ultimately show ?thesis by simp
qed

lemma castVote_overwrites:
  assumes "db_get (db_games db) g = Some game" and "j < length (db_votes db)"
    and "voteKey (db_votes db ! j) = (g, v, g_round game)"
    and "\<not> isl (snd (castVote db g v tgt now))"
  shows "\<exists>i < length (db_votes db). voteKey (db_votes db ! i) = (g, v, g_round game)
           \<and> castVote db g v tgt now =
               (db\<lparr>db_votes := (db_votes db)
                     [i := (db_votes db ! i)\<lparr>vd_targetId := tgt, vd_timestamp := now\<rparr>]\<rparr>,
                Inr i)"
  using assms(4)
proof (cases rule: castVote_cases)
  case (overwrite game' i)
  then show ?thesis using assms(1) by auto
next
  case (insert game' voterDoc)
  then show ?thesis using assms(1,2,3) by auto
qed

lemma castVote_inserts:
  assumes "db_get (db_games db) g = Some game"
    and "\<forall>j < length (db_votes db). voteKey (db_votes db ! j) \<noteq> (g, v, g_round game)"
    and "\<not> isl (snd (castVote db g v tgt now))"
  shows "\<exists>voterDoc. db_get (db_players db) v = Some voterDoc
           \<and> castVote db g v tgt now =
               (db\<lparr>db_votes := db_votes db @
                       [\<lparr>vd_gameId = g, vd_voterId = v, vd_targetId = tgt,
                         vd_round = g_round game, vd_timestamp = now\<rparr>],
                    db_players := (db_players db)
                       [v := voterDoc\<lparr>pd_hasVotedThisRound := True\<rparr>]\<rparr>,
                Inr (length (db_votes db)))"
  using assms(3)
proof (cases rule: castVote_cases)
  case (overwrite game' i)
  then show ?thesis using assms(1,2) by auto
next
  case (insert game' voterDoc)
  then show ?thesis using assms(1) by auto
qed

text \<open>
  C3 as stated (submitting a vote when the voter already has a vote record for the
  current round overwrites that record rather than appending a new one) fails for
  \<open>submitVote\<close> of the game-logic package: a second submission by \<open>a\<close> leaves two records
  of \<open>a\<close> for round 1 and the tally counts both.
\<close>

theorem submitVote_appends_counterexample:
  "length (filter (\<lambda>vote. voterId vote = ''a'' \<and> v_round vote = 1)
      (votes (submitVote (submitVote openVoting ''a'' (Some ''w'') 31) ''a'' (Some ''w'') 32)))
     = 2
   \<and> results (tallyVotes
        (submitVote (submitVote openVoting ''a'' (Some ''w'') 31) ''a'' (Some ''w'') 32))
     = [(''w'', Num 2)]"
  by (simp add: submitVote_def openVoting_def exampleVoting_def exampleNight_def
      tallyVotes_counts currentRoundVotes_def prototypeFunctions_def)

text \<open>
  C3, amended. On the server, an accepted \<open>castVote\<close> by a voter who has a vote record
  for the game's current round replaces the target and the timestamp of one such record
  and changes nothing else in the store; without such a record it appends one record and
  sets the voter's flag; either way \<open>castVote\<close> keeps at most one record per (game,
  voter, round). In the game-logic package \<open>submitVote\<close> appends one record for the
  current round whatever the state, so the voter then has one more record of that round,
  and it sets the flag of the players with that id; \<open>canVote\<close> rejects a voter whose
  flag is set (with the reason "Already voted this round" when the voter is alive and
  the phase is voting); a submission that \<open>canVote\<close> accepts keeps \<open>voteInv\<close>; and under
  \<open>voteInv\<close> the tally counts each voter at most once: \<open>abstentions\<close> is the number of
  voters whose record is an abstention, and every numeric count in \<open>results\<close> is the
  number of voters whose record names that target.
\<close>

theorem one_vote_per_voter:
  "(db_get (db_games db) g = Some game \<and> j < length (db_votes db)
      \<and> voteKey (db_votes db ! j) = (g, v, g_round game)
      \<and> \<not> isl (snd (castVote db g v tgt now)) \<longrightarrow>
        (\<exists>i < length (db_votes db). voteKey (db_votes db ! i) = (g, v, g_round game)
           \<and> castVote db g v tgt now =
               (db\<lparr>db_votes := (db_votes db)
                     [i := (db_votes db ! i)\<lparr>vd_targetId := tgt, vd_timestamp := now\<rparr>]\<rparr>,
                Inr i)))
   \<and> (db_get (db_games db) g = Some game
      \<and> (\<forall>j < length (db_votes db). voteKey (db_votes db ! j) \<noteq> (g, v, g_round game))
      \<and> \<not> isl (snd (castVote db g v tgt now)) \<longrightarrow>
        (\<exists>voterDoc. db_get (db_players db) v = Some voterDoc
           \<and> castVote db g v tgt now =
               (db\<lparr>db_votes := db_votes db @
                       [\<lparr>vd_gameId = g, vd_voterId = v, vd_targetId = tgt,
                         vd_round = g_round game, vd_timestamp = now\<rparr>],
                    db_players := (db_players db)
                       [v := voterDoc\<lparr>pd_hasVotedThisRound := True\<rparr>]\<rparr>,
                Inr (length (db_votes db)))))
   \<and> (distinct (map voteKey (db_votes db)) \<longrightarrow>
        distinct (map voteKey (db_votes (fst (castVote db g v tgt now)))))
   \<and> votes (submitVote s vid tid now)
       = votes s @ [\<lparr>voterId = vid, v_targetId = tid, v_round = round_no s,
                      v_timestamp = now\<rparr>]
   \<and> length (filter (\<lambda>vote. voterId vote = vid) (currentRoundVotes (submitVote s vid tid now)))
       = length (filter (\<lambda>vote. voterId vote = vid) (currentRoundVotes s)) + 1
   \<and> players (submitVote s vid tid now)
       = map (\<lambda>p. if p_id p = vid then p\<lparr>hasVotedThisRound := True\<rparr> else p) (players s)
   \<and> (hasVotedThisRound voter \<longrightarrow>
        \<not> valid (canVote voter target s)
        \<and> (isAlive voter \<and> phase s = Voting \<longrightarrow>
             reason (canVote voter target s) = Some ''Already voted this round''))
   \<and> (voteInv s \<and> voter \<in> set (players s) \<and> valid (canVote voter target s) \<longrightarrow>
        voteInv (submitVote s (p_id voter) tid now))
   \<and> (voteInv s \<longrightarrow>
        abstentions (tallyVotes s)
          = card {x. \<exists>vote \<in> set (currentRoundVotes s).
                      voterId vote = x \<and> v_targetId vote = None}
      \<and> (\<forall>(t, c) \<in> set (results (tallyVotes s)). \<forall>n. c = Num n \<longrightarrow>
            n = card {x. \<exists>vote \<in> set (currentRoundVotes s).
                        voterId vote = x \<and> v_targetId vote = Some t}))"
proof -
  have a: "abstentions (tallyVotes s)
          = card {x. \<exists>vote \<in> set (currentRoundVotes s).
                      voterId vote = x \<and> v_targetId vote = None}"
    if "voteInv s"
    using that abstainers_distinct_voters [of s]
    by (simp add: voteInv_def tally_abstentions)
  have e: "\<forall>(t, c) \<in> set (results (tallyVotes s)). \<forall>n. c = Num n \<longrightarrow>
            n = card {x. \<exists>vote \<in> set (currentRoundVotes s).
                        voterId vote = x \<and> v_targetId vote = Some t}"
    if "voteInv s"
    using that tally_entry_count [of _ _ s] votesFor_distinct_voters [of s]
    by (auto simp add: voteInv_def)
  have sv: "votes (submitVote s vid tid now)
       = votes s @ [\<lparr>voterId = vid, v_targetId = tid, v_round = round_no s,
                      v_timestamp = now\<rparr>]"
    and sp: "players (submitVote s vid tid now)
       = map (\<lambda>p. if p_id p = vid then p\<lparr>hasVotedThisRound := True\<rparr> else p) (players s)"
    by (simp_all add: submitVote_def)
  have sl: "length (filter (\<lambda>vote. voterId vote = vid)
        (currentRoundVotes (submitVote s vid tid now)))
       = length (filter (\<lambda>vote. voterId vote = vid) (currentRoundVotes s)) + 1"
    by (simp add: currentRoundVotes_submitVote)
  have cv: "hasVotedThisRound voter \<longrightarrow>
        \<not> valid (canVote voter target s)
        \<and> (isAlive voter \<and> phase s = Voting \<longrightarrow>
             reason (canVote voter target s) = Some ''Already voted this round'')"
    by (simp add: canVote_def)
  show ?thesis
    using castVote_overwrites [of db g game j v tgt now] castVote_inserts [of db g game v tgt now]
      castVote_keeps_distinct [of db g v tgt now]
      submitVote_keeps_voteInv [of s voter target tid now] a e sv sp sl cv
    by simp
qed

theorem one_vote_per_voter_witness:
  "distinct (map voteKey (db_votes exampleRevoteDb))
   \<and> voteKey (db_votes exampleRevoteDb ! 0) = (0, 1, 1)
   \<and> \<not> isl (snd (castVote exampleRevoteDb 0 1 (Some 2) 50))
   \<and> castVote exampleRevoteDb 0 1 (Some 2) 50
       = (exampleRevoteDb\<lparr>db_votes :=
            [\<lparr>vd_gameId = 0, vd_voterId = 1, vd_targetId = Some 2, vd_round = 1,
              vd_timestamp = 50\<rparr>]\<rparr>, Inr 0)
   \<and> distinct (map voteKey (db_votes (fst (castVote exampleRevoteDb 0 1 (Some 2) 50))))
   \<and> voteInv openVoting \<and> freshVoter \<in> set (players openVoting)
   \<and> valid (canVote freshVoter None openVoting)
   \<and> voteInv (submitVote openVoting ''a'' (Some ''w'') 31)
   \<and> votes (submitVote openVoting ''a'' (Some ''w'') 31)
       = [\<lparr>voterId = ''a'', v_targetId = Some ''w'', v_round = 1, v_timestamp = 31\<rparr>]
   \<and> abstentions (tallyVotes (submitVote openVoting ''a'' (Some ''w'') 31))
       = card {x. \<exists>vote \<in> set (currentRoundVotes (submitVote openVoting ''a'' (Some ''w'') 31)).
                   voterId vote = x \<and> v_targetId vote = None}"
proof -
  let ?db = exampleRevoteDb
  let ?game = "\<lparr>g_phase = Day, g_round = 1, g_winner = None, g_updatedAt = 0\<rparr>"
  have g: "db_get (db_games ?db) 0 = Some ?game"
    by (simp add: exampleRevoteDb_def exampleDb_def db_get_def)
  have k: "voteKey (db_votes ?db ! 0) = (0, 1, 1)"
    by (simp add: exampleRevoteDb_def voteKey_def)
  have l: "length (db_votes ?db) = 1" by (simp add: exampleRevoteDb_def)
  have dk: "distinct (map voteKey (db_votes ?db))" by (simp add: exampleRevoteDb_def)
  have acc: "\<not> isl (snd (castVote ?db 0 1 (Some 2) 50))"
    by (simp add: castVote_def exampleRevoteDb_def exampleDb_def exampleDoc_def db_get_def
        enumerate_eq_zip Let_def)
  have vi: "voteInv openVoting"
    by (simp add: voteInv_def openVoting_def exampleVoting_def exampleNight_def
        currentRoundVotes_def)
  have fv: "freshVoter \<in> set (players openVoting)"
    by (simp add: openVoting_def freshVoter_def exampleRoster_def examplePlayer_def
        exampleVoting_def exampleNight_def)
  have cv: "valid (canVote freshVoter None openVoting)"
    by (simp add: canVote_def freshVoter_def openVoting_def exampleVoting_def examplePlayer_def)
  have pid: "p_id freshVoter = ''a''" by (simp add: freshVoter_def examplePlayer_def)
  note A = one_vote_per_voter [where db = ?db and g = 0 and v = 1 and tgt = "Some 2"
      and now = 31 and j = 0 and game = ?game and s = openVoting and voter = freshVoter
      and target = None and tid = "Some ''w''" and vid = "''a''"]
  note B = one_vote_per_voter [where s = "submitVote openVoting ''a'' (Some ''w'') 31"
      and db = ?db and g = 0 and v = 1 and tgt = "Some 2" and now = 50 and j = 0
      and game = ?game]
  have "\<exists>i < length (db_votes ?db). voteKey (db_votes ?db ! i) = (0, 1, g_round ?game)
           \<and> castVote ?db 0 1 (Some 2) 50 =
               (?db\<lparr>db_votes := (db_votes ?db)
                     [i := (db_votes ?db ! i)\<lparr>vd_targetId := Some 2, vd_timestamp := 50\<rparr>]\<rparr>,
                Inr i)"
    using B g k l acc by simp
  then have r: "castVote ?db 0 1 (Some 2) 50 =
               (?db\<lparr>db_votes := (db_votes ?db)
                     [0 := (db_votes ?db ! 0)\<lparr>vd_targetId := Some 2, vd_timestamp := 50\<rparr>]\<rparr>,
                Inr 0)"
    using l by auto
  have r': "castVote ?db 0 1 (Some 2) 50
       = (?db\<lparr>db_votes :=
            [\<lparr>vd_gameId = 0, vd_voterId = 1, vd_targetId = Some 2, vd_round = 1,
              vd_timestamp = 50\<rparr>]\<rparr>, Inr 0)"
    unfolding r by (simp add: exampleRevoteDb_def)
  have a1: "distinct (map voteKey (db_votes (fst (castVote ?db 0 1 (Some 2) 50))))"
    using B dk by blast
  have a2: "voteInv (submitVote openVoting ''a'' (Some ''w'') 31)"
    using A vi fv cv pid by simp
  have a3: "abstentions (tallyVotes (submitVote openVoting ''a'' (Some ''w'') 31))
       = card {x. \<exists>vote \<in> set (currentRoundVotes (submitVote openVoting ''a'' (Some ''w'') 31)).
                   voterId vote = x \<and> v_targetId vote = None}"
    using B a2 by blast
  have a4: "votes (submitVote openVoting ''a'' (Some ''w'') 31)
       = [\<lparr>voterId = ''a'', v_targetId = Some ''w'', v_round = 1, v_timestamp = 31\<rparr>]"
    using A by (simp add: openVoting_def exampleVoting_def exampleNight_def)
  show ?thesis using dk k acc r' a1 vi fv cv a2 a3 a4 by blast
qed

end
